theory Spec2Isabelle
  imports Complex_Main "HOL-Library.Char_ord" "HOL-Library.List_Lexorder"
begin

section \<open>Numbers and values of the host language\<close>

text \<open>
  The viewer is a TypeScript component (\<^verbatim>\<open>ThreeView.tsx\<close>). Its numbers are IEEE doubles.
  A finite number is modelled by the real it denotes, with exact arithmetic (no rounding,
  no overflow); the three non-finite numbers are separate constructors, because the code
  tests \<^verbatim>\<open>typeof v === "number"\<close> and \<^verbatim>\<open>Number.isFinite(v)\<close> separately.
\<close>

datatype jsnum = Num real | NaN | Infinity | NegInfinity

text \<open>
  A cell of a row. \<open>JObject\<close> stands for any non-primitive value (array, object, date);
  only its identity is kept.
\<close>

datatype jsval =
    JNumber jsnum
  | JString string
  | JBoolean bool
  | JNull
  | JUndefined
  | JObject nat

text \<open>\<^verbatim>\<open>typeof v === "number"\<close>\<close>

fun typeof_number :: "jsval \<Rightarrow> bool" where
  "typeof_number (JNumber n) = True"
| "typeof_number v = False"

text \<open>\<^verbatim>\<open>typeof v === "number" && Number.isFinite(v)\<close>, returning the finite value.\<close>

fun finite_number :: "jsval \<Rightarrow> real option" where
  "finite_number (JNumber (Num x)) = Some x"
| "finite_number v = None"

text \<open>
  \<^verbatim>\<open>Number(v)\<close>. The conversion of a string (the language's numeric-literal parser) and
  of an object (its \<^verbatim>\<open>valueOf\<close>/\<^verbatim>\<open>toString\<close>) are not part of the program: they
  are the parameter \<open>conv\<close>.
\<close>

fun Number_js :: "(jsval \<Rightarrow> jsnum) \<Rightarrow> jsval \<Rightarrow> jsnum" where
  "Number_js conv (JNumber n) = n"
| "Number_js conv JUndefined = NaN"
| "Number_js conv JNull = Num 0"
| "Number_js conv (JBoolean b) = Num (if b then 1 else 0)"
| "Number_js conv v = conv v"

text \<open>\<^verbatim>\<open>Number.isFinite\<close> on a number, returning the finite value.\<close>

fun isFinite :: "jsnum \<Rightarrow> real option" where
  "isFinite (Num x) = Some x"
| "isFinite n = None"

text \<open>
  The remainder operator \<^verbatim>\<open>a % b\<close> on finite numbers with \<open>b \<noteq> 0\<close>: the quotient is
  truncated towards zero, so the result has the sign of the dividend. (With \<open>b = 0\<close> the
  language yields NaN; every use below is guarded by \<^verbatim>\<open>duration > 0\<close>.)
\<close>

definition js_trunc :: "real \<Rightarrow> int" where
  "js_trunc x = (if 0 \<le> x then \<lfloor>x\<rfloor> else \<lceil>x\<rceil>)"

definition js_rem :: "real \<Rightarrow> real \<Rightarrow> real" where
  "js_rem a b = a - b * of_int (js_trunc (a / b))"

text \<open>\<^verbatim>\<open>Math.round(x)\<close>: the nearest integer, ties towards plus infinity.\<close>

definition Math_round :: "real \<Rightarrow> int" where
  "Math_round x = \<lfloor>x + 1 / 2\<rfloor>"

section \<open>Data model\<close>

text \<open>
  A row is an object: a finite list of fields, the first binding of a key being its value.
  An entry of a data array that is \<^verbatim>\<open>null\<close>, \<^verbatim>\<open>undefined\<close> or not an object is \<open>None\<close>.
\<close>

type_synonym row = "(string \<times> jsval) list"

text \<open>\<^verbatim>\<open>(d as any)?.[k]\<close>: a missing entry and a missing field both read as undefined.\<close>

definition getProp :: "row option \<Rightarrow> string \<Rightarrow> jsval" where
  "getProp d k = (case d of None \<Rightarrow> JUndefined
               | Some r \<Rightarrow> (case map_of r k of None \<Rightarrow> JUndefined | Some v \<Rightarrow> v))"

text \<open>\<^verbatim>\<open>Object.keys(d)\<close>: every key once.\<close>

definition Object_keys :: "(string \<times> 'a) list \<Rightarrow> string list" where
  "Object_keys r = remdups (map fst r)"

text \<open>\<^verbatim>\<open>type SeriesPoint = { t?: number; value: number }\<close>\<close>

record SeriesPoint =
  t :: "real option"
  "value" :: real

record Series =
  pts :: "SeriesPoint list"
  dur :: real

text \<open>\<^verbatim>\<open>type RowsBySheet = Record<string, any[]>\<close>\<close>

type_synonym RowsBySheet = "(string \<times> row option list) list"

record PlayerManifest =
  player :: string
  defaultSession :: "string option"
  sessions_of :: "string list option"
  fbx :: "string option"
  excel :: "string option"
  files :: "(string \<times> (string option \<times> string option)) list option"

text \<open>
  An address of an asset. The code builds the string
  \<^verbatim>\<open>data/<player>/<session>/<file>\<close> under the base address (or takes a blob address for an
  uploaded file); the model keeps the three parts.
\<close>

datatype url = DataUrl string string string | BlobUrl nat

text \<open>
  The state of the component: its \<^verbatim>\<open>useState\<close> cells, under their names in the source,
  and the two refs of the playback loop.
\<close>

record view =
  playerName :: string
  session :: "string option"
  players :: "string list"
  fbxUrl :: "url option"
  playing :: bool
  speed :: real
  time :: real
  duration :: real
  snapFrames :: bool
  rowsBySheet :: "RowsBySheet option"
  sheetNames :: "string list"
  sheet :: "string option"
  rows :: "row option list option"
  channels :: "string list"
  selectedChannel :: "string option"
  series :: "SeriesPoint list option"
  selectedChannelB :: "string option"
  seriesB :: "SeriesPoint list option"
  jsonDuration :: real
  manifest :: "PlayerManifest option"
  sessions :: "string list"
  lastTsRef :: "real option"
  subFrameAccRef :: real

text \<open>
  The initial values of the state cells, for the initial player, session and player list
  that the component reads from the page's address.
\<close>

definition initial_view :: "string \<Rightarrow> string option \<Rightarrow> string list \<Rightarrow> view" where
  "initial_view initialPlayer urlSession initialPlayers =
     \<lparr> playerName = initialPlayer, session = urlSession, players = initialPlayers,
       fbxUrl = None, playing = True, speed = 1, time = 0, duration = 0,
       snapFrames = True, rowsBySheet = None, sheetNames = [], sheet = None,
       rows = None, channels = [], selectedChannel = None, series = None,
       selectedChannelB = None, seriesB = None, jsonDuration = 0,
       manifest = None, sessions = [], lastTsRef = None, subFrameAccRef = 0 \<rparr>"

section \<open>Playback clock\<close>

definition FPS :: real where
  "FPS = 120"

text \<open>The expression \<^verbatim>\<open>((x % d) + d) % d\<close>, which the source writes out three times.\<close>

definition wrap :: "real \<Rightarrow> real \<Rightarrow> real" where
  "wrap x d = js_rem (js_rem x d + d) d"

text \<open>
  Two effects depend on \<^verbatim>\<open>[speed, snapFrames, playing, duration]\<close>: one resets the
  sub-frame accumulator, the other restarts the loop, and \<^verbatim>\<open>cancelLoop\<close> forgets the last
  timestamp. \<open>clock_effects old new\<close> runs them when one of the four changed between the
  previous render \<open>old\<close> and \<open>new\<close>.
\<close>

definition cancelLoop :: "view \<Rightarrow> view" where
  "cancelLoop s = s\<lparr>lastTsRef := None\<rparr>"

definition clock_effects :: "view \<Rightarrow> view \<Rightarrow> view" where
  "clock_effects old new =
     (if speed new = speed old \<and> snapFrames new = snapFrames old
         \<and> playing new = playing old \<and> duration new = duration old
      then new
      else cancelLoop (new\<lparr>subFrameAccRef := 0\<rparr>))"

definition setPlaying :: "bool \<Rightarrow> view \<Rightarrow> view" where
  "setPlaying b s = clock_effects s (s\<lparr>playing := b\<rparr>)"

definition setSpeed :: "real \<Rightarrow> view \<Rightarrow> view" where
  "setSpeed v s = clock_effects s (s\<lparr>speed := v\<rparr>)"

definition setSnapFrames :: "bool \<Rightarrow> view \<Rightarrow> view" where
  "setSnapFrames b s = clock_effects s (s\<lparr>snapFrames := b\<rparr>)"

text \<open>
  \<^verbatim>\<open>onReadyDuration(dur)\<close>: \<^verbatim>\<open>setDuration(dur); setTime(t => dur > 0 ? (t % dur + dur) % dur : 0)\<close>.
\<close>

definition onReadyDuration :: "real \<Rightarrow> view \<Rightarrow> view" where
  "onReadyDuration d s =
     clock_effects s
       (s\<lparr>duration := d, time := (if d > 0 then wrap (time s) d else 0)\<rparr>)"

text \<open>
  The updater that \<^verbatim>\<open>loop\<close> hands to \<^verbatim>\<open>setTime\<close>: from the clamped frame time \<open>dt\<close>
  (in seconds) and the previous time \<open>prev\<close> it computes the next time; on the way it
  writes the sub-frame accumulator. The result is the pair of the next time and the
  accumulator's new content. \<open>s\<close> holds what the closure captured.
\<close>

definition advance :: "view \<Rightarrow> real \<Rightarrow> real \<Rightarrow> real \<times> real" where
  "advance s dt prev =
     (if \<not> playing s \<or> duration s \<le> 0 then (prev, subFrameAccRef s)
      else
        let sp = min 2 (max 0.1 (speed s));
            delta = dt * sp
        in if \<not> snapFrames s then
             let next = prev + delta
             in (if duration s > 0 then wrap next (duration s) else next, subFrameAccRef s)
           else
             let step = 1 / FPS;
                 acc = subFrameAccRef s + delta;
                 frames = \<lfloor>acc / step\<rfloor>;
                 acc' = acc - of_int frames * step
             in if frames \<le> 0 then (prev, acc')
                else
                  let next = prev + of_int frames * step
                  in (if duration s > 0
                      then min (max 0 (wrap next (duration s)))
                               (max 0 (duration s - step / 2))
                      else next, acc'))"

text \<open>
  The body of \<^verbatim>\<open>loop(ts)\<close>, one call per animation frame; \<open>ts\<close> is the host's timestamp
  in milliseconds.
\<close>

definition loop :: "real \<Rightarrow> view \<Rightarrow> view" where
  "loop ts s =
     (let lastTs = (case lastTsRef s of None \<Rightarrow> ts | Some l \<Rightarrow> l);
          dtRaw = (ts - lastTs) / 1000;
          dt = min (max dtRaw 0) 0.05;
          r = advance s dt (time s)
      in s\<lparr>lastTsRef := Some ts, time := fst r, subFrameAccRef := snd r\<rparr>)"

text \<open>What can happen to the clock between two renders.\<close>

datatype clock_event =
    Tick real
  | SetPlaying bool
  | SetSpeed real
  | SetSnapFrames bool

fun clock_step :: "clock_event \<Rightarrow> view \<Rightarrow> view" where
  "clock_step (Tick ts) s = loop ts s"
| "clock_step (SetPlaying b) s = setPlaying b s"
| "clock_step (SetSpeed v) s = setSpeed v s"
| "clock_step (SetSnapFrames b) s = setSnapFrames b s"

text \<open>The states after each event of a sequence, in order.\<close>

fun clock_trace :: "clock_event list \<Rightarrow> view \<Rightarrow> view list" where
  "clock_trace [] s = []"
| "clock_trace (e # es) s = clock_step e s # clock_trace es (clock_step e s)"

text \<open>
  Which frame a seek lands on depends on how the program's products and quotients are
  rounded, so for the seek the rounding is explicit: \<open>fl x\<close> is the double nearest to
  \<open>x\<close>, applied to the exact result of each multiplication and division. The statements
  below use three facts about it: it is monotone, it leaves the integers up to \<open>2^53\<close>
  as they are, and it moves a number below \<open>2^50\<close> by at most a quarter (the spacing of
  the doubles there is at most an eighth).
\<close>

definition double_rounding :: "(real \<Rightarrow> real) \<Rightarrow> bool" where
  "double_rounding fl \<longleftrightarrow>
     (\<forall>x y. x \<le> y \<longrightarrow> fl x \<le> fl y)
     \<and> (\<forall>k::int. \<bar>k\<bar> \<le> 2 ^ 53 \<longrightarrow> fl (of_int k) = of_int k)
     \<and> (\<forall>x. \<bar>x\<bar> \<le> 2 ^ 50 \<longrightarrow> \<bar>fl x - x\<bar> \<le> 1 / 4)"

text \<open>
  \<^verbatim>\<open>handleGraphSeek(tJson)\<close>: a click on a plot, in the time base of the data.
  \<^verbatim>\<open>Math.max\<close>, \<^verbatim>\<open>Math.min\<close> and \<^verbatim>\<open>Math.round\<close> are exact on the numbers they get.
\<close>

definition handleGraphSeek :: "(real \<Rightarrow> real) \<Rightarrow> real \<Rightarrow> view \<Rightarrow> view" where
  "handleGraphSeek fl tJson s =
     (if duration s > 0 \<and> jsonDuration s > 0 then
        let t0 = fl (fl (tJson / jsonDuration s) * duration s);
            t1 = (if snapFrames s then fl (of_int (Math_round (fl (t0 * FPS))) / FPS) else t0)
        in s\<lparr>time := max 0 (min (duration s) t1)\<rparr>
      else if duration s > 0 then
        let t0 = max 0 (min (duration s) tJson);
            t1 = (if snapFrames s then fl (of_int (Math_round (fl (t0 * FPS))) / FPS) else t0)
        in s\<lparr>time := t1\<rparr>
      else s)"

text \<open>
  The time base of the data, in the words of the specification: \<open>seekAbsolute\<close> clamps
  into \<open>[0, animationDuration]\<close> and then, if snapping is enabled, rounds to the nearest
  multiple of \<open>1/FPS\<close>; a seek from the plot maps the data time linearly and passes the
  result through \<open>seekAbsolute\<close>.
\<close>

definition nearest_frame :: "real \<Rightarrow> real" where
  "nearest_frame x = of_int (Math_round (x * FPS)) / FPS"

definition seekAbsolute_spec :: "real \<Rightarrow> view \<Rightarrow> view" where
  "seekAbsolute_spec x s =
     (let c = max 0 (min (duration s) x)
      in s\<lparr>time := (if snapFrames s then nearest_frame c else c)\<rparr>)"

definition handleGraphSeek_spec :: "real \<Rightarrow> view \<Rightarrow> view" where
  "handleGraphSeek_spec tData s =
     (if duration s > 0 \<and> jsonDuration s > 0
      then seekAbsolute_spec ((tData / jsonDuration s) * duration s) s
      else if duration s > 0 then seekAbsolute_spec tData s
      else s)"

text \<open>
  States used as concrete inputs: a freshly mounted view whose animation reported a
  duration of two seconds, with snapping switched off; one whose animation lasts 1.001
  seconds while the data lasts one second; and one whose animation lasts 1.001 seconds
  and that has no data yet.
\<close>

definition demo_view :: view where
  "demo_view = setSnapFrames False (onReadyDuration 2 (initial_view ''Pete Alonso'' None [''Pete Alonso'']))"

definition seek_view :: view where
  "seek_view =
     (onReadyDuration (1001 / 1000) (initial_view ''Pete Alonso'' None [''Pete Alonso'']))\<lparr>jsonDuration := 1\<rparr>"

definition bare_view :: view where
  "bare_view = onReadyDuration (1001 / 1000) (initial_view ''Pete Alonso'' None [''Pete Alonso''])"


section \<open>Channel extraction\<close>

text \<open>
  \<^verbatim>\<open>Set.prototype.add\<close> on a set kept in insertion order, as \<^verbatim>\<open>Array.from(set)\<close> reads it.
\<close>

definition set_add :: "string \<Rightarrow> string list \<Rightarrow> string list" where
  "set_add k acc = (if k \<in> set acc then acc else acc @ [k])"

text \<open>The inner loop of \<^verbatim>\<open>listNumericChannels\<close>, over the keys of one row.\<close>

fun scan_keys :: "row \<Rightarrow> string list \<Rightarrow> string list \<Rightarrow> string list" where
  "scan_keys d [] acc = acc"
| "scan_keys d (k # ks) acc =
     (if k = ''t'' \<or> k = ''time'' \<or> k = ''frame'' then scan_keys d ks acc
      else case finite_number (getProp (Some d) k) of
             Some v \<Rightarrow> scan_keys d ks (set_add k acc)
           | None \<Rightarrow> scan_keys d ks acc)"

text \<open>The outer loop, over the rows; an entry that is not an object is skipped.\<close>

fun scan_rows :: "row option list \<Rightarrow> string list \<Rightarrow> string list" where
  "scan_rows [] acc = acc"
| "scan_rows (None # ds) acc = scan_rows ds acc"
| "scan_rows (Some d # ds) acc = scan_rows ds (scan_keys d (Object_keys d) acc)"

text \<open>
  \<^verbatim>\<open>Array.from(set).sort()\<close>: the default sort orders strings by their code units, which is
  the lexicographic order of \<open>string\<close>.
\<close>

definition listNumericChannels :: "row option list \<Rightarrow> string list" where
  "listNumericChannels data = sort (scan_rows data [])"

section \<open>Series builder\<close>

text \<open>\<^verbatim>\<open>p.t ?? 0\<close>\<close>

definition orZero :: "real option \<Rightarrow> real" where
  "orZero x = (case x of None \<Rightarrow> 0 | Some v \<Rightarrow> v)"

text \<open>The choice of \<^verbatim>\<open>tKey\<close> at the head of \<^verbatim>\<open>buildSeries\<close>.\<close>

definition timeKey :: "row option list \<Rightarrow> string option" where
  "timeKey data =
     (let hasT = list_ex (\<lambda>d. typeof_number (getProp d ''t'')) data;
          hasTime = list_ex (\<lambda>d. typeof_number (getProp d ''time'')) data
      in if hasT then Some ''t'' else if hasTime then Some ''time'' else None)"

text \<open>
  The loop \<^verbatim>\<open>for (let i = 0; i < n; i++)\<close> of \<^verbatim>\<open>buildSeries\<close>, from index \<open>i\<close> on; the
  points are pushed in the order of the rows.
\<close>

fun collect ::
  "(jsval \<Rightarrow> jsnum) \<Rightarrow> string option \<Rightarrow> string \<Rightarrow> nat \<Rightarrow> nat \<Rightarrow> row option list
     \<Rightarrow> SeriesPoint list" where
  "collect conv tKey channel n i [] = []"
| "collect conv tKey channel n i (row # rest) =
     (case finite_number (getProp row channel) of
        None \<Rightarrow> collect conv tKey channel n (i + 1) rest
      | Some rawV \<Rightarrow>
          (case tKey of
             Some k \<Rightarrow>
               (case isFinite (Number_js conv (getProp row k)) of
                  None \<Rightarrow> collect conv tKey channel n (i + 1) rest
                | Some tv \<Rightarrow>
                    \<lparr>t = Some tv, value = rawV\<rparr> # collect conv tKey channel n (i + 1) rest)
           | None \<Rightarrow>
               \<lparr>t = Some (if n > 1 then real i / real (n - 1) else 0), value = rawV\<rparr>
                 # collect conv tKey channel n (i + 1) rest))"

text \<open>
  \<^verbatim>\<open>buildSeries(data, channel)\<close>. \<^verbatim>\<open>!data\<close> holds for null, \<^verbatim>\<open>!channel\<close> for null and for
  the empty string.
\<close>

definition buildSeries ::
  "(jsval \<Rightarrow> jsnum) \<Rightarrow> row option list option \<Rightarrow> string option \<Rightarrow> Series" where
  "buildSeries conv data channel =
     (case data of
        None \<Rightarrow> \<lparr>pts = [], dur = 0\<rparr>
      | Some rs \<Rightarrow>
          (case channel of
             None \<Rightarrow> \<lparr>pts = [], dur = 0\<rparr>
           | Some ch \<Rightarrow>
               if rs = [] \<or> ch = [] then \<lparr>pts = [], dur = 0\<rparr>
               else
                 let tKey = timeKey rs;
                     n = length rs;
                     ps = collect conv tKey ch n 0 rs
                 in if ps = [] then \<lparr>pts = [], dur = 0\<rparr>
                    else
                      let t0 = orZero (t (hd ps));
                          t1 = orZero (t (last ps));
                          dur = max 0 (t1 - t0);
                          normalized = map (\<lambda>p. \<lparr>t = Some (orZero (t p) - t0), value = value p\<rparr>) ps
                      in \<lparr>pts = normalized, dur = dur\<rparr>))"

text \<open>
  The choice of the time key in the words of the specification: \<open>t\<close> if any row has a
  finite value there, else \<open>time\<close>, else none.
\<close>

definition timeKey_spec :: "row option list \<Rightarrow> string option" where
  "timeKey_spec data =
     (if list_ex (\<lambda>d. finite_number (getProp d ''t'') \<noteq> None) data then Some ''t''
      else if list_ex (\<lambda>d. finite_number (getProp d ''time'') \<noteq> None) data then Some ''time''
      else None)"

text \<open>
  Concrete tables: one with timestamps in descending order, one whose \<open>t\<close> column holds
  only the number Infinity (a JSON file can carry it as \<^verbatim>\<open>1e999\<close>) beside a usable
  \<open>time\<close> column, one without a time column, and one with mixed cells.
\<close>

definition descending_rows :: "row option list" where
  "descending_rows =
     [Some [(''t'', JNumber (Num 1)), (''v'', JNumber (Num 1))],
      Some [(''t'', JNumber (Num 0)), (''v'', JNumber (Num 2))]]"

definition infinite_t_rows :: "row option list" where
  "infinite_t_rows =
     [Some [(''t'', JNumber Infinity), (''time'', JNumber (Num 0)), (''v'', JNumber (Num 1))],
      Some [(''t'', JNumber Infinity), (''time'', JNumber (Num 1)), (''v'', JNumber (Num 2))]]"

definition untimed_rows :: "row option list" where
  "untimed_rows =
     [Some [(''v'', JNumber (Num 5))],
      Some [(''v'', JString ''n/a'')],
      Some [(''v'', JNumber (Num 7))]]"

definition mixed_rows :: "row option list" where
  "mixed_rows =
     [Some [(''t'', JNumber (Num 0)), (''w'', JNumber (Num 3)), (''label'', JString ''a'')],
      None,
      Some [(''t'', JNumber (Num 1)), (''frame'', JNumber (Num 1)), (''v'', JNumber (Num 4)),
            (''w'', JNumber NaN)]]"

text \<open>
  A declarative reading of the loop of \<^verbatim>\<open>buildSeries\<close>, to compare it with: the indices
  of the rows that are kept under a time key, and the time a kept row gets.
\<close>

definition kept_rows ::
  "(jsval \<Rightarrow> jsnum) \<Rightarrow> string option \<Rightarrow> string \<Rightarrow> row option list \<Rightarrow> nat list" where
  "kept_rows conv key channel data =
     filter (\<lambda>i. finite_number (getProp (data ! i) channel) \<noteq> None
                \<and> (case key of None \<Rightarrow> True
                    | Some k \<Rightarrow> isFinite (Number_js conv (getProp (data ! i) k)) \<noteq> None))
       [0..<length data]"

definition row_time ::
  "(jsval \<Rightarrow> jsnum) \<Rightarrow> string option \<Rightarrow> row option list \<Rightarrow> nat \<Rightarrow> real" where
  "row_time conv key data i =
     (case key of
        Some k \<Rightarrow> the (isFinite (Number_js conv (getProp (data ! i) k)))
      | None \<Rightarrow> if length data > 1 then real i / real (length data - 1) else 0)"

definition ascending_rows :: "row option list" where
  "ascending_rows =
     [Some [(''t'', JNumber (Num 0)), (''v'', JNumber (Num 1))],
      Some [(''t'', JNumber (Num (1 / 2))), (''v'', JNumber (Num 2))],
      Some [(''t'', JNumber (Num 1)), (''v'', JNumber (Num 3))]]"

text \<open>Whether the loop keeps a row, and the point it pushes for a row at an index.\<close>

definition keeps :: "(jsval \<Rightarrow> jsnum) \<Rightarrow> string option \<Rightarrow> string \<Rightarrow> row option \<Rightarrow> bool" where
  "keeps conv key ch r \<longleftrightarrow>
     finite_number (getProp r ch) \<noteq> None
     \<and> (case key of None \<Rightarrow> True
         | Some k \<Rightarrow> isFinite (Number_js conv (getProp r k)) \<noteq> None)"

definition point_at ::
  "(jsval \<Rightarrow> jsnum) \<Rightarrow> string option \<Rightarrow> string \<Rightarrow> nat \<Rightarrow> nat \<Rightarrow> row option \<Rightarrow> SeriesPoint" where
  "point_at conv key ch n idx r =
     \<lparr>t = Some (case key of
                  Some k \<Rightarrow> the (isFinite (Number_js conv (getProp r k)))
                | None \<Rightarrow> if n > 1 then real idx / real (n - 1) else 0),
      value = the (finite_number (getProp r ch))\<rparr>"

section \<open>Dataset store and load orchestration\<close>

subsection \<open>The name patterns\<close>

text \<open>
  The code picks sheets and channels by regular expressions of two shapes, \<^verbatim>\<open>/A/i\<close> and
  \<^verbatim>\<open>/A.*B/i\<close>, with \<open>A\<close> and \<open>B\<close> plain ASCII words. Case is ignored; \<^verbatim>\<open>.\<close> matches any
  character but a line terminator.
\<close>

definition lower :: "char \<Rightarrow> char" where
  "lower c =
     (case map_of (zip ''ABCDEFGHIJKLMNOPQRSTUVWXYZ'' ''abcdefghijklmnopqrstuvwxyz'') c of
        None \<Rightarrow> c
      | Some l \<Rightarrow> l)"

fun prefix_ci :: "string \<Rightarrow> string \<Rightarrow> bool" where
  "prefix_ci [] s = True"
| "prefix_ci (p # ps) [] = False"
| "prefix_ci (p # ps) (c # cs) = (lower p = lower c \<and> prefix_ci ps cs)"

text \<open>\<^verbatim>\<open>.*B\<close> matched at the head of a string.\<close>

fun dots_then :: "string \<Rightarrow> string \<Rightarrow> bool" where
  "dots_then b [] = prefix_ci b []"
| "dots_then b (c # cs) =
     (prefix_ci b (c # cs) \<or> (c \<noteq> CHR 0x0A \<and> c \<noteq> CHR 0x0D \<and> dots_then b cs))"

text \<open>\<^verbatim>\<open>/A.*B/i.test(s)\<close>; with \<open>B\<close> empty it is \<^verbatim>\<open>/A/i.test(s)\<close>.\<close>

fun regex_test :: "string \<Rightarrow> string \<Rightarrow> string \<Rightarrow> bool" where
  "regex_test a b [] = (prefix_ci a [] \<and> dots_then b [])"
| "regex_test a b (c # cs) =
     ((prefix_ci a (c # cs) \<and> dots_then b (drop (length a) (c # cs))) \<or> regex_test a b cs)"

text \<open>\<^verbatim>\<open>x ?? y\<close> on optional values.\<close>

definition orElse :: "'a option \<Rightarrow> 'a option \<Rightarrow> 'a option" where
  "orElse x y = (case x of None \<Rightarrow> y | Some v \<Rightarrow> Some v)"

text \<open>Truthiness of a string that may be null: neither null nor empty.\<close>

definition truthy :: "string option \<Rightarrow> bool" where
  "truthy x = (case x of None \<Rightarrow> False | Some s \<Rightarrow> s \<noteq> [])"

definition pickPreferredChannel :: "string list \<Rightarrow> string option" where
  "pickPreferredChannel list =
     orElse (find (regex_test ''Wrist'' ''Velocity'') list)
       (orElse (find (regex_test ''Velocity'' []) list)
          (orElse (find (regex_test ''Rotation'' []) list)
             (case list of [] \<Rightarrow> None | k # ks \<Rightarrow> Some k)))"

text \<open>The sheet shown first after a table is parsed.\<close>

definition preferredSheet :: "string list \<Rightarrow> string option" where
  "preferredSheet names =
     orElse (find (regex_test ''joint'' ''position'') names)
       (orElse (find (regex_test ''baseball'' ''data'') names)
          (case names of [] \<Rightarrow> None | n # ns \<Rightarrow> Some n))"

subsection \<open>The effects that derive channels and series\<close>

text \<open>
  An effect is a function of the state it was rendered with (\<open>snap\<close>, what its closure
  reads) and of the state its updates are applied to (\<open>cur\<close>, what an updater function
  reads as \<open>prev\<close>).

  The effect on \<^verbatim>\<open>[rowsBySheet, sheet]\<close>, after the two updater functions it hands to
  \<^verbatim>\<open>setSelectedChannel\<close> and \<^verbatim>\<open>setSelectedChannelB\<close>. When the sheet is not a key of the
  table, \<^verbatim>\<open>listNumericChannels(undefined)\<close> throws; that is the result \<open>None\<close>.
\<close>

definition nextChannelA :: "string list \<Rightarrow> string option \<Rightarrow> string option" where
  "nextChannelA chs prev =
     (if truthy prev \<and> the prev \<in> set chs then prev else pickPreferredChannel chs)"

definition nextChannelB :: "string list \<Rightarrow> string option \<Rightarrow> string option" where
  "nextChannelB chs prev =
     (if truthy prev \<and> the prev \<in> set chs then prev
      else
        let first = pickPreferredChannel chs
        in orElse (find (\<lambda>k. Some k \<noteq> first) chs) first)"

definition recompute_effect :: "view \<Rightarrow> view \<Rightarrow> view option" where
  "recompute_effect snap cur =
     (case rowsBySheet snap of
        None \<Rightarrow> Some cur
      | Some sets \<Rightarrow>
          if \<not> truthy (sheet snap) then Some cur
          else
            (case map_of sets (the (sheet snap)) of
               None \<Rightarrow> None
             | Some newRows \<Rightarrow>
                 let chs = listNumericChannels newRows
                 in Some (cur\<lparr>rows := Some newRows,
                              channels := chs,
                              selectedChannel := nextChannelA chs (selectedChannel cur),
                              selectedChannelB := nextChannelB chs (selectedChannelB cur)\<rparr>)))"

text \<open>The effect on \<^verbatim>\<open>[rows, selectedChannel]\<close>.\<close>

definition seriesA_effect :: "(jsval \<Rightarrow> jsnum) \<Rightarrow> view \<Rightarrow> view \<Rightarrow> view" where
  "seriesA_effect conv snap cur =
     (if rows snap = None \<or> \<not> truthy (selectedChannel snap)
      then cur\<lparr>series := None, jsonDuration := 0\<rparr>
      else
        let r = buildSeries conv (rows snap) (selectedChannel snap)
        in cur\<lparr>series := Some (pts r), jsonDuration := dur r\<rparr>)"

text \<open>The effect on \<^verbatim>\<open>[rows, selectedChannelB]\<close>.\<close>

definition seriesB_effect :: "(jsval \<Rightarrow> jsnum) \<Rightarrow> view \<Rightarrow> view \<Rightarrow> view" where
  "seriesB_effect conv snap cur =
     (if rows snap = None \<or> \<not> truthy (selectedChannelB snap)
      then cur\<lparr>seriesB := None\<rparr>
      else cur\<lparr>seriesB := Some (pts (buildSeries conv (rows snap) (selectedChannelB snap)))\<rparr>)"

definition derived_effects :: "(jsval \<Rightarrow> jsnum) \<Rightarrow> view \<Rightarrow> view \<Rightarrow> view option" where
  "derived_effects conv snap cur =
     (case recompute_effect snap cur of
        None \<Rightarrow> None
      | Some c \<Rightarrow> Some (seriesB_effect conv snap (seriesA_effect conv snap c)))"

subsection \<open>Loads in flight\<close>

text \<open>
  A call of \<^verbatim>\<open>loadManifest(p)\<close> that has started: its player, the \<^verbatim>\<open>cancelled\<close> variable of
  the effect run that made the call, and whether its fetch has settled. A table load that
  has started: the address it fetches and whether it has settled; it captures no flag.
\<close>

record manifest_load =
  m_player :: string
  cancelled :: bool
  m_settled :: bool

record excel_load =
  e_path :: url
  e_settled :: bool

text \<open>
  The component and its surroundings: the state cells, the loads started so far (in the
  order they were started), the dependencies the two loading effects last ran with, and
  the identity of the manifest object (the load that delivered it).
\<close>

record sys =
  ui :: view
  isPlayerLocked :: bool
  manifestLoads :: "manifest_load list"
  excelLoads :: "excel_load list"
  manifestDeps :: "string option"
  loadDeps :: "(nat option \<times> string option \<times> string) option"
  manifestFrom :: "nat option"

text \<open>
  The effect on \<^verbatim>\<open>[playerName, isPlayerLocked]\<close>. When the player changed, the previous run's
  cleanup sets its \<^verbatim>\<open>cancelled\<close>, and a new run calls \<^verbatim>\<open>loadManifest(playerName)\<close>.
\<close>

definition cancel_last :: "manifest_load list \<Rightarrow> manifest_load list" where
  "cancel_last ls = (if ls = [] then [] else butlast ls @ [(last ls)\<lparr>cancelled := True\<rparr>])"

definition manifest_effect :: "sys \<Rightarrow> sys" where
  "manifest_effect s =
     (if manifestDeps s = Some (playerName (ui s)) then s
      else s\<lparr>manifestLoads :=
               cancel_last (manifestLoads s)
                 @ [\<lparr>m_player = playerName (ui s), cancelled = False, m_settled = False\<rparr>],
             manifestDeps := Some (playerName (ui s))\<rparr>)"

text \<open>
  The effect on \<^verbatim>\<open>[manifest, session, playerName, isPlayer, isPlayerLocked]\<close>: it returns at
  once without a manifest or a session; otherwise it points the scene at the session's
  animation, restarts playback, and starts the load of the session's table. It has no
  cleanup.
\<close>

definition file_of ::
  "PlayerManifest \<Rightarrow> string \<Rightarrow> ((string option \<times> string option) \<Rightarrow> string option)
     \<Rightarrow> (PlayerManifest \<Rightarrow> string option) \<Rightarrow> string \<Rightarrow> string" where
  "file_of m ses sel dflt fallback =
     (case orElse (case files m of None \<Rightarrow> None
                   | Some fs \<Rightarrow> (case map_of fs ses of None \<Rightarrow> None | Some e \<Rightarrow> sel e))
                  (dflt m) of
        None \<Rightarrow> fallback
      | Some f \<Rightarrow> f)"

definition load_effect :: "sys \<Rightarrow> sys" where
  "load_effect s =
     (let deps = (manifestFrom s, session (ui s), playerName (ui s))
      in if loadDeps s = Some deps then s
         else
           let s0 = s\<lparr>loadDeps := Some deps\<rparr>
           in case manifest (ui s) of
                None \<Rightarrow> s0
              | Some m \<Rightarrow>
                  if \<not> truthy (session (ui s)) then s0
                  else
                    let ses = the (session (ui s));
                        fileFBX = file_of m ses fst fbx ''EXPORT.fbx'';
                        fileExcel = file_of m ses snd excel ''Kinematic_Data (1).xlsx'';
                        fbxPath = DataUrl (playerName (ui s)) ses fileFBX;
                        excelPath = DataUrl (playerName (ui s)) ses fileExcel
                    in s0\<lparr>ui := clock_effects (ui s)
                                  ((ui s)\<lparr>fbxUrl := Some fbxPath, playing := True, time := 0\<rparr>),
                           excelLoads :=
                             excelLoads s @ [\<lparr>e_path = excelPath, e_settled = False\<rparr>]\<rparr>)"

text \<open>
  One render with its effects, and the renders that follow a change of state. The two
  loading effects run when their dependencies changed; the three deriving effects are
  functions of the state and are run on every round. After the second round nothing
  changes any more; the third is there to see it.
\<close>

definition render :: "(jsval \<Rightarrow> jsnum) \<Rightarrow> sys \<Rightarrow> sys option" where
  "render conv s =
     (let s1 = load_effect (manifest_effect s)
      in case derived_effects conv (ui s) (ui s1) of
           None \<Rightarrow> None
         | Some u \<Rightarrow> Some (s1\<lparr>ui := u\<rparr>))"

definition commit :: "(jsval \<Rightarrow> jsnum) \<Rightarrow> sys \<Rightarrow> sys option" where
  "commit conv s = Option.bind (Option.bind (render conv s) (render conv)) (render conv)"

text \<open>
  The rest of \<^verbatim>\<open>loadManifest\<close> after its fetch settled, for the call number \<open>i\<close>: with a
  manifest \<open>Some m\<close>, or with \<open>None\<close> when the response was not ok or not JSON.
\<close>

definition manifest_then :: "nat \<Rightarrow> PlayerManifest option \<Rightarrow> sys \<Rightarrow> sys" where
  "manifest_then i r s =
     (let ld = manifestLoads s ! i; p = m_player ld
      in case r of
           None \<Rightarrow>
             s\<lparr>ui := (ui s)\<lparr>manifest := None, sessions := [], session := None\<rparr>,
               manifestFrom := None\<rparr>
         | Some m \<Rightarrow>
             if cancelled ld then s
             else
               s\<lparr>ui := (ui s)
                   \<lparr>manifest := Some m,
                    sessions := (case sessions_of m of None \<Rightarrow> [] | Some l \<Rightarrow> l),
                    session :=
                      (let prev = session (ui s)
                       in if truthy prev
                             \<and> (case sessions_of m of None \<Rightarrow> False | Some l \<Rightarrow> the prev \<in> set l)
                          then prev
                          else orElse (defaultSession m)
                                 (case sessions_of m of
                                    None \<Rightarrow> None
                                  | Some [] \<Rightarrow> None
                                  | Some (x # xs) \<Rightarrow> Some x)),
                    players :=
                      (if isPlayerLocked s then [p]
                       else if p \<in> set (players (ui s)) then players (ui s)
                       else players (ui s) @ [p])\<rparr>,
                 manifestFrom := Some i\<rparr>)"

text \<open>
  The rest of a table load after its fetch and parse settled: with the parsed sheets
  \<open>Some sets\<close>, or with \<open>None\<close> when the response was not ok or the parser threw. The
  \<^verbatim>\<open>catch\<close> block is \<open>excel_failed\<close>.
\<close>

definition excel_failed :: "view \<Rightarrow> view" where
  "excel_failed v = v\<lparr>rowsBySheet := None, sheetNames := [], sheet := None, rows := None\<rparr>"

definition excel_then :: "RowsBySheet option \<Rightarrow> view \<Rightarrow> view" where
  "excel_then r v =
     (case r of
        None \<Rightarrow> excel_failed v
      | Some sets \<Rightarrow>
          let names = Object_keys sets
          in case preferredSheet names of
               None \<Rightarrow> excel_failed v
             | Some preferred \<Rightarrow>
                 v\<lparr>rowsBySheet := Some sets, sheetNames := names, sheet := Some preferred,
                   rows := map_of sets preferred\<rparr>)"

text \<open>
  What happens to the component: the user picks a player or a session, or a fetch that
  is in flight settles. An event that names no load in flight changes nothing.
\<close>

datatype event =
    SelectPlayer string
  | SelectSession string
  | ManifestArrives nat "PlayerManifest option"
  | ExcelArrives nat "RowsBySheet option"

fun step :: "(jsval \<Rightarrow> jsnum) \<Rightarrow> event \<Rightarrow> sys \<Rightarrow> sys option" where
  "step conv (SelectPlayer p) s = commit conv (s\<lparr>ui := (ui s)\<lparr>playerName := p\<rparr>\<rparr>)"
| "step conv (SelectSession x) s = commit conv (s\<lparr>ui := (ui s)\<lparr>session := Some x\<rparr>\<rparr>)"
| "step conv (ManifestArrives i r) s =
     (if i < length (manifestLoads s) \<and> \<not> m_settled (manifestLoads s ! i)
      then commit conv
             (manifest_then i r
                (s\<lparr>manifestLoads := (manifestLoads s)[i := (manifestLoads s ! i)\<lparr>m_settled := True\<rparr>]\<rparr>))
      else Some s)"
| "step conv (ExcelArrives i r) s =
     (if i < length (excelLoads s) \<and> \<not> e_settled (excelLoads s ! i)
      then commit conv
             (s\<lparr>excelLoads := (excelLoads s)[i := (excelLoads s ! i)\<lparr>e_settled := True\<rparr>],
                ui := excel_then r (ui s)\<rparr>)
      else Some s)"

fun run :: "(jsval \<Rightarrow> jsnum) \<Rightarrow> event list \<Rightarrow> sys \<Rightarrow> sys option" where
  "run conv [] s = Some s"
| "run conv (e # es) s = (case step conv e s of None \<Rightarrow> None | Some s' \<Rightarrow> run conv es s')"

text \<open>The component after its first render and effects.\<close>

definition mount ::
  "(jsval \<Rightarrow> jsnum) \<Rightarrow> string \<Rightarrow> string option \<Rightarrow> string list \<Rightarrow> bool \<Rightarrow> sys option" where
  "mount conv initialPlayer urlSession initialPlayers locked =
     commit conv
       \<lparr>ui = initial_view initialPlayer urlSession initialPlayers, isPlayerLocked = locked,
        manifestLoads = [], excelLoads = [], manifestDeps = None, loadDeps = None,
        manifestFrom = None\<rparr>"

subsection \<open>Concrete players, tables and runs\<close>

definition manifestA :: PlayerManifest where
  "manifestA =
     \<lparr>player = ''A'', defaultSession = Some ''s1'', sessions_of = Some [''s1'', ''s2''],
      fbx = None, excel = None, files = None\<rparr>"

definition manifestB :: PlayerManifest where
  "manifestB =
     \<lparr>player = ''B'', defaultSession = None, sessions_of = Some [''s1''],
      fbx = None, excel = Some ''b.xlsx'', files = None\<rparr>"

definition setsA :: RowsBySheet where
  "setsA = [(''Summary'', []), (''Joint Positions'', ascending_rows)]"

definition setsB :: RowsBySheet where
  "setsB = [(''Data'', untimed_rows)]"

text \<open>
  The viewer opens on player A. In \<open>overlapping_loads\<close> A's manifest arrives and the load
  of A's table starts; the user switches to player B; B's manifest arrives, B's table
  arrives, and only then A's table arrives. In \<open>late_manifest_failure\<close> the user switches
  to B while A's manifest is still in flight; B's manifest arrives, then A's fetch fails;
  in \<open>late_manifest_success\<close> it succeeds instead.
  In \<open>loaded_then_missing\<close> player A is loaded completely, the user switches to a
  player B whose manifest is answered with status 404, and the table load started for B
  fails as well.
\<close>

definition opened :: "sys option" where
  "opened = mount (\<lambda>v. NaN) ''A'' None [''A''] False"

definition overlapping_loads :: "event list" where
  "overlapping_loads =
     [ManifestArrives 0 (Some manifestA), SelectPlayer ''B'',
      ManifestArrives 1 (Some manifestB), ExcelArrives 2 (Some setsB),
      ExcelArrives 0 (Some setsA)]"

definition late_manifest_failure :: "event list" where
  "late_manifest_failure =
     [SelectPlayer ''B'', ManifestArrives 1 (Some manifestB), ManifestArrives 0 None]"

definition late_manifest_success :: "event list" where
  "late_manifest_success =
     [SelectPlayer ''B'', ManifestArrives 1 (Some manifestB), ManifestArrives 0 (Some manifestA)]"

definition loaded_then_switched :: "event list" where
  "loaded_then_switched =
     [ManifestArrives 0 (Some manifestA), ExcelArrives 0 (Some setsA), SelectPlayer ''B'']"

definition loaded_then_missing :: "event list" where
  "loaded_then_missing =
     loaded_then_switched @ [ManifestArrives 1 None, ExcelArrives 1 None]"

text \<open>
  The two loading effects have run for the current player, session and manifest.
\<close>

definition settled_deps :: "sys \<Rightarrow> bool" where
  "settled_deps s \<longleftrightarrow>
     manifestDeps s = Some (playerName (ui s))
     \<and> loadDeps s = Some (manifestFrom s, session (ui s), playerName (ui s))"

section \<open>Properties of the playback clock\<close>

subsection \<open>The remainder operator and wrap-around\<close>

lemma js_rem_nonneg:
  assumes "0 \<le> a" "0 < d"
  shows "0 \<le> js_rem a d \<and> js_rem a d < d"
proof -
  have q: "0 \<le> a / d" using assms by simp
  let ?k = "\<lfloor>a / d\<rfloor>"
  have 1: "of_int ?k \<le> a / d" by simp
  have 2: "a / d < of_int ?k + 1" by linarith
  have "d * of_int ?k \<le> d * (a / d)" using 1 assms by (intro mult_left_mono) auto
  then have "d * of_int ?k \<le> a" using assms by simp
  moreover have "d * (a / d) < d * (of_int ?k + 1)" using 2 assms by (intro mult_strict_left_mono) auto
  then have "a < d * (of_int ?k + 1)" using assms by simp
  ultimately show ?thesis using q by (simp add: js_rem_def js_trunc_def algebra_simps)
qed

lemma js_rem_lower:
  assumes "0 < d"
  shows "- d < js_rem a d"
proof (cases "0 \<le> a")
  case True
  then show ?thesis using js_rem_nonneg [of a d] assms by linarith
next
  case False
  then have neg: "a / d < 0" using assms by (simp add: divide_neg_pos)
  let ?k = "\<lceil>a / d\<rceil>"
  have "of_int ?k < a / d + 1" by linarith
  then have "d * of_int ?k < d * (a / d + 1)" using assms by (intro mult_strict_left_mono) auto
  then have "d * of_int ?k < a + d" using assms by (simp add: algebra_simps)
  then show ?thesis using neg by (simp add: js_rem_def js_trunc_def)
qed

lemma wrap_range:
  assumes "0 < d"
  shows "0 \<le> wrap x d \<and> wrap x d < d"
  unfolding wrap_def using js_rem_lower [OF assms, of x] js_rem_nonneg [of "js_rem x d + d" d] assms
  by simp

lemma wrap_id:
  assumes "0 \<le> x" "x < d"
  shows "wrap x d = x"
proof -
  have d: "0 < d" using assms by simp
  have "\<lfloor>x / d\<rfloor> = 0" using assms d by (simp add: floor_eq_iff)
  then have 1: "js_rem x d = x" using assms d by (simp add: js_rem_def js_trunc_def)
  have "\<lfloor>(x + d) / d\<rfloor> = 1" using assms d by (simp add: floor_eq_iff add_divide_distrib)
  then have "js_rem (x + d) d = x" using assms d by (simp add: js_rem_def js_trunc_def)
  with 1 show ?thesis by (simp add: wrap_def)
qed

lemma wrap_floor:
  assumes "0 < d"
  shows "wrap x d = x - d * of_int \<lfloor>x / d\<rfloor>"
proof -
  define m where "m = 1 - js_trunc (x / d) - js_trunc ((js_rem x d + d) / d)"
  have eq: "wrap x d = x + d * of_int m"
    by (simp add: wrap_def js_rem_def m_def algebra_simps)
  from wrap_range [OF assms, of x] have r: "0 \<le> wrap x d" "wrap x d < d" by simp_all
  have "wrap x d / d = x / d + of_int m"
    using assms by (simp add: eq add_divide_distrib)
  moreover have "0 \<le> wrap x d / d" "wrap x d / d < 1" using r assms by simp_all
  ultimately have "\<lfloor>x / d\<rfloor> = - m" by (intro floor_unique) simp_all
  then show ?thesis by (simp add: eq)
qed

subsection \<open>One frame of the loop\<close>

lemma loop_duration: "duration (loop ts s) = duration s"
  by (simp add: loop_def Let_def)

lemma clamp_frame:
  assumes "0 \<le> w" "w < d"
  shows "0 \<le> min (max 0 w) (max 0 (d - e)) \<and> min (max 0 w) (max 0 (d - e)) < (d::real)"
  using assms by (simp add: min_less_iff_disj)

lemma advance_range:
  assumes "0 < duration s" "0 \<le> prev" "prev < duration s"
  shows "0 \<le> fst (advance s dt prev) \<and> fst (advance s dt prev) < duration s"
proof -
  note w = wrap_range [OF assms(1)]
  have c: "\<And>x e. 0 \<le> min (max 0 (wrap x (duration s))) (max 0 (duration s - e))
       \<and> min (max 0 (wrap x (duration s))) (max 0 (duration s - e)) < duration s"
    using w by (intro clamp_frame) auto
  show ?thesis using assms w c by (simp add: advance_def Let_def)
qed

lemma loop_time_range:
  assumes "0 < duration s" "0 \<le> time s" "time s < duration s"
  shows "0 \<le> time (loop ts s) \<and> time (loop ts s) < duration s"
  using advance_range [OF assms] by (simp add: loop_def Let_def)

lemma clock_effects_fields:
  "time (clock_effects old new) = time new" "duration (clock_effects old new) = duration new"
  by (simp_all add: clock_effects_def cancelLoop_def)

lemma clock_step_inv:
  assumes "0 < duration s" "0 \<le> time s" "time s < duration s"
  shows "duration (clock_step e s) = duration s \<and> 0 \<le> time (clock_step e s)
         \<and> time (clock_step e s) < duration s"
proof (cases e)
  case (Tick ts)
  then show ?thesis using loop_time_range [OF assms] by (simp add: loop_duration)
qed (use assms in \<open>simp_all add: setPlaying_def setSpeed_def setSnapFrames_def clock_effects_fields\<close>)

lemma demo_view_fields:
  "duration demo_view = 2" "time demo_view = 0" "speed demo_view = 1" "playing demo_view"
  "\<not> snapFrames demo_view" "lastTsRef demo_view = None"
  by (simp_all add: demo_view_def setSnapFrames_def onReadyDuration_def clock_effects_def
        cancelLoop_def initial_view_def wrap_id)

lemma loop_config:
  "lastTsRef (loop ts s) = Some ts" "playing (loop ts s) = playing s"
  "snapFrames (loop ts s) = snapFrames s" "speed (loop ts s) = speed s"
  by (simp_all add: loop_def Let_def)

lemma loop_free_running:
  assumes "playing s" "\<not> snapFrames s" "0 < duration s" "lastTsRef s = Some l"
  shows "time (loop ts s) = wrap (time s + min (max ((ts - l) / 1000) 0) 0.05 * min 2 (max 0.1 (speed s))) (duration s)"
  using assms by (simp add: loop_def advance_def Let_def)

lemma loop_first:
  assumes "lastTsRef s = None" "playing s" "\<not> snapFrames s" "0 < duration s" "0 \<le> time s" "time s < duration s"
  shows "time (loop ts s) = time s"
  using assms by (simp add: loop_def advance_def Let_def wrap_id)

subsection \<open>The clock invariant\<close>

text \<open>
  Claim C1. Let the animation duration be positive and the current time lie in
  \<open>[0, duration)\<close>. Then after every event of any finite sequence of frame ticks, mixed
  in any way with changes of \<open>playing\<close>, \<open>speed\<close> and \<open>snapFrames\<close>, the duration is
  unchanged and the current time lies in \<open>[0, duration)\<close> again. The timestamps of the ticks
  need not even increase: a negative elapsed time is clamped to zero.
\<close>

theorem clock_invariant:
  assumes "0 < duration s" "0 \<le> time s" "time s < duration s"
  shows "\<forall>s' \<in> set (clock_trace evs s).
           duration s' = duration s \<and> 0 \<le> time s' \<and> time s' < duration s'"
  using assms
proof (induction evs arbitrary: s)
  case Nil
  then show ?case by simp
next
  case (Cons e evs)
  from clock_step_inv [OF Cons.prems, of e]
  have st: "duration (clock_step e s) = duration s" "0 \<le> time (clock_step e s)"
    "time (clock_step e s) < duration s" by simp_all
  have tl: "\<forall>s' \<in> set (clock_trace evs (clock_step e s)).
          duration s' = duration (clock_step e s) \<and> 0 \<le> time s' \<and> time s' < duration s'"
    by (rule Cons.IH) (use st Cons.prems in simp_all)
  show ?case
  proof
    fix s' assume "s' \<in> set (clock_trace (e # evs) s)"
    then consider "s' = clock_step e s" | "s' \<in> set (clock_trace evs (clock_step e s))"
      by auto
    then show "duration s' = duration s \<and> 0 \<le> time s' \<and> time s' < duration s'"
    proof cases
      case 1
      then show ?thesis using st by simp
    next
      case 2
      with tl have "duration s' = duration (clock_step e s) \<and> 0 \<le> time s' \<and> time s' < duration s'" by blast
      then show ?thesis using st by simp
    qed
  qed
qed

theorem clock_invariant_witness:
  "0 < duration demo_view \<and> 0 \<le> time demo_view \<and> time demo_view < duration demo_view
   \<and> duration (loop 90 (setSnapFrames True (loop 40 (loop 0 demo_view)))) = duration demo_view
   \<and> 0 \<le> time (loop 90 (setSnapFrames True (loop 40 (loop 0 demo_view))))
   \<and> time (loop 90 (setSnapFrames True (loop 40 (loop 0 demo_view))))
       < duration (loop 90 (setSnapFrames True (loop 40 (loop 0 demo_view))))"
proof -
  have h: "0 < duration demo_view" "0 \<le> time demo_view" "time demo_view < duration demo_view"
    by (simp_all add: demo_view_fields)
  have "loop 90 (setSnapFrames True (loop 40 (loop 0 demo_view)))
          \<in> set (clock_trace [Tick 0, Tick 40, SetSnapFrames True, Tick 90] demo_view)"
    by simp
  with clock_invariant [OF h, of "[Tick 0, Tick 40, SetSnapFrames True, Tick 90]"] h
  show ?thesis by blast
qed

subsection \<open>Two long frames\<close>

text \<open>
  Claim C2, as stated, fails. With a duration of 2, speed 1, snapping off, playing, and
  the time at 0, a first frame at 0 ms and then frames 1.5 s and 1.0 s later leave the
  current time at 0.1, not at 0.5: each elapsed time is clamped to 0.05 s before it is
  used.
\<close>

theorem two_long_ticks_counterexample:
  "time (loop 2500 (loop 1500 (loop 0 demo_view))) = 1 / 10 \<and>
   time (loop 2500 (loop 1500 (loop 0 demo_view))) \<noteq> 1 / 2"
proof -
  let ?s0 = "loop 0 demo_view" and ?s1 = "loop 1500 (loop 0 demo_view)"
  have a: "playing ?s0" "\<not> snapFrames ?s0" "0 < duration ?s0" "lastTsRef ?s0 = Some 0"
    and a': "speed ?s0 = 1" "duration ?s0 = 2" "time ?s0 = 0"
    by (simp_all add: loop_config loop_duration loop_first demo_view_fields)
  have 1: "time ?s1 = 1 / 20"
    unfolding loop_free_running [OF a] a' by (simp add: wrap_id)
  have b: "playing ?s1" "\<not> snapFrames ?s1" "0 < duration ?s1" "lastTsRef ?s1 = Some 1500"
    and b': "speed ?s1 = 1" "duration ?s1 = 2"
    using a a' by (simp_all add: loop_config loop_duration)
  have "time (loop 2500 ?s1) = 1 / 10"
    unfolding loop_free_running [OF b] b' 1 by (simp add: wrap_id)
  then show ?thesis by simp
qed

text \<open>
  Claim C2, amended. With a duration of 2, speed 1, snapping off, playing, and the time at
  0, two frames that each come at least 50 ms after the previous one leave the current
  time at 0.1: each contributes the clamped 0.05 s.
\<close>

theorem two_long_ticks:
  assumes "duration s = 2" "speed s = 1" "\<not> snapFrames s" "playing s" "time s = 0"
    and "lastTsRef s = Some ts0" "50 \<le> ts1 - ts0" "50 \<le> ts2 - ts1"
  shows "time (loop ts2 (loop ts1 s)) = 1 / 10"
proof -
  have d: "0 < duration s" using assms by simp
  have 1: "time (loop ts1 s) = 1 / 20"
    using assms d by (simp add: loop_free_running [OF assms(4,3) d assms(6)] wrap_id)
  have n: "playing (loop ts1 s)" "\<not> snapFrames (loop ts1 s)" "0 < duration (loop ts1 s)"
    "lastTsRef (loop ts1 s) = Some ts1"
    using assms by (simp_all add: loop_config loop_duration)
  have "time (loop ts2 (loop ts1 s)) = wrap (1 / 20 + 1 / 20) 2"
    unfolding loop_free_running [OF n] 1 using assms by (simp add: loop_config loop_duration)
  then show ?thesis by (simp add: wrap_id)
qed

theorem two_long_ticks_witness:
  "duration (loop 0 demo_view) = 2 \<and> speed (loop 0 demo_view) = 1
   \<and> \<not> snapFrames (loop 0 demo_view) \<and> playing (loop 0 demo_view)
   \<and> time (loop 0 demo_view) = 0 \<and> lastTsRef (loop 0 demo_view) = Some 0
   \<and> (50::real) \<le> 1500 - 0 \<and> (50::real) \<le> 2500 - 1500
   \<and> time (loop 2500 (loop 1500 (loop 0 demo_view))) = 1 / 10"
proof -
  have a: "lastTsRef (loop 0 demo_view) = Some 0" "duration (loop 0 demo_view) = 2"
     "speed (loop 0 demo_view) = 1" "\<not> snapFrames (loop 0 demo_view)" "playing (loop 0 demo_view)"
     "time (loop 0 demo_view) = 0"
    by (simp_all add: loop_config loop_duration loop_first demo_view_fields)
  have b: "(50::real) \<le> 1500 - 0" "(50::real) \<le> 2500 - 1500" by simp_all
  from two_long_ticks [OF a(2,3,4,5,6,1) b] a b show ?thesis by simp
qed

subsection \<open>The duration callback\<close>

text \<open>
  Claim C6, as stated, fails: the callback stores the reported duration as it is, so a
  negative duration is not replaced by 0.
\<close>

theorem onReadyDuration_counterexample:
  "duration (onReadyDuration (- 1) (initial_view ''Pete Alonso'' None [''Pete Alonso''])) = - 1 \<and>
   duration (onReadyDuration (- 1) (initial_view ''Pete Alonso'' None [''Pete Alonso''])) \<noteq> max 0 (- 1)"
  by (simp add: onReadyDuration_def clock_effects_def cancelLoop_def initial_view_def)

text \<open>
  Claim C6, amended. \<^verbatim>\<open>onReadyDuration(d)\<close> sets the animation duration to \<open>d\<close> itself, for
  every \<open>d\<close> and every prior state (so also when it fires again on a re-load), and sets
  the current time to \<^verbatim>\<open>((t % d) + d) % d\<close> when \<open>d > 0\<close> and to 0 otherwise. For
  \<open>d > 0\<close> that value is \<open>t - d * floor (t / d)\<close>, which lies in \<open>[0, d)\<close>.
\<close>

theorem onReadyDuration_rewrap:
  "duration (onReadyDuration d s) = d \<and>
   time (onReadyDuration d s) = (if 0 < d then wrap (time s) d else 0) \<and>
   (0 < d \<longrightarrow> time (onReadyDuration d s) = time s - d * of_int \<lfloor>time s / d\<rfloor>
              \<and> 0 \<le> time (onReadyDuration d s) \<and> time (onReadyDuration d s) < d)"
  using wrap_range [of d "time s"] wrap_floor [of d "time s"]
  by (simp add: onReadyDuration_def clock_effects_fields)

theorem onReadyDuration_rewrap_witness:
  "duration (onReadyDuration 2 (onReadyDuration 3 ((initial_view ''Pete Alonso'' None [''Pete Alonso''])\<lparr>time := 5 / 2\<rparr>))) = 2 \<and>
   time (onReadyDuration 2 (onReadyDuration 3 ((initial_view ''Pete Alonso'' None [''Pete Alonso''])\<lparr>time := 5 / 2\<rparr>))) = 1 / 2"
proof -
  let ?s = "onReadyDuration 3 ((initial_view ''Pete Alonso'' None [''Pete Alonso''])\<lparr>time := 5 / 2\<rparr>)"
  have ts: "time ?s = 5 / 2"
    by (simp add: onReadyDuration_def clock_effects_fields wrap_id)
  have fl: "\<lfloor>(5 / 2 :: real) / 2\<rfloor> = 1" by (simp add: floor_eq_iff)
  from onReadyDuration_rewrap [of 2 ?s]
  have "duration (onReadyDuration 2 ?s) = 2"
    and "time (onReadyDuration 2 ?s) = time ?s - 2 * of_int \<lfloor>time ?s / 2\<rfloor>"
    by simp_all
  then show ?thesis unfolding ts fl by simp
qed

subsection \<open>Seeking from a plot\<close>

lemma seek_view_fields:
  "duration seek_view = 1001 / 1000" "jsonDuration seek_view = 1" "snapFrames seek_view"
  "duration bare_view = 1001 / 1000" "jsonDuration bare_view = 0" "snapFrames bare_view"
  by (simp_all add: seek_view_def bare_view_def onReadyDuration_def clock_effects_def
        cancelLoop_def initial_view_def)

lemma double_rounding_exact: "double_rounding (\<lambda>x. x)"
  by (simp add: double_rounding_def)

lemma Math_round_between:
  assumes "of_int a \<le> x" "x \<le> of_int b"
  shows "a \<le> Math_round x" "Math_round x \<le> b"
proof -
  from assms(1) have "of_int a \<le> x + 1 / 2" by simp
  then show "a \<le> Math_round x" unfolding Math_round_def by (simp add: le_floor_iff)
  from assms(2) have "x + 1 / 2 < of_int (b + 1)" by simp
  then have "\<lfloor>x + 1 / 2\<rfloor> < b + 1" by (simp only: floor_less_iff)
  then show "Math_round x \<le> b" unfolding Math_round_def by simp
qed

text \<open>Whatever the rounding, a seek with no animation changes nothing.\<close>

lemma handleGraphSeek_noop: "\<not> 0 < duration s \<Longrightarrow> handleGraphSeek fl tJson s = s"
  by (simp add: handleGraphSeek_def)

text \<open>
  Whatever the rounding, with both durations positive the new time lies in
  \<open>[0, duration]\<close>: the clamp comes last.
\<close>

lemma handleGraphSeek_clamped:
  assumes "0 < duration s" "0 < jsonDuration s"
  shows "0 \<le> time (handleGraphSeek fl tJson s)" "time (handleGraphSeek fl tJson s) \<le> duration s"
  using assms by (simp_all add: handleGraphSeek_def Let_def)

text \<open>
  Claim C7 is what the second branch of \<^verbatim>\<open>handleGraphSeek\<close> does, the one for a positive
  animation duration alone: it clamps and then rounds. The first branch, for two positive
  durations, rounds and then clamps, so a seek beyond the end lands on the duration itself
  and not on a frame. With an animation of 1.001 s, data of 1 s and snapping on, a seek
  to data time 5 sets the time to 1.001, where the claim's clamping and then rounding
  gives 1; the second branch, on a view without data and the same seek, gives 1 as well.
  This holds for every rounding of the arithmetic with the three properties above.
\<close>

theorem handleGraphSeek_off_grid:
  assumes "double_rounding fl"
  shows "time (handleGraphSeek fl 5 seek_view) = 1001 / 1000
         \<and> time (handleGraphSeek_spec 5 seek_view) = 1
         \<and> time (handleGraphSeek fl 5 bare_view) = 1"
proof -
  from assms have mono: "\<And>x y. x \<le> y \<Longrightarrow> fl x \<le> fl y"
    and ints: "\<And>k::int. \<bar>k\<bar> \<le> 2 ^ 53 \<Longrightarrow> fl (of_int k) = of_int k"
    and near: "\<And>x. \<bar>x\<bar> \<le> 2 ^ 50 \<Longrightarrow> \<bar>fl x - x\<bar> \<le> 1 / 4"
    by (simp_all add: double_rounding_def)
  have f5: "fl 5 = 5" using ints [of 5] by simp
  have f6: "fl 6 = 6" using ints [of 6] by simp
  have f600: "fl 600 = 600" using ints [of 600] by simp
  have f720: "fl 720 = 720" using ints [of 720] by simp
  have f1: "fl 1 = 1" using ints [of 1] by simp
  \<comment> \<open>the first branch\<close>
  define t0 where "t0 = fl (fl (5 / 1) * (1001 / 1000))"
  have t0': "t0 = fl (5 * (1001 / 1000))" unfolding t0_def using f5 by simp
  define p where "p = fl (t0 * 120)"
  define k where "k = Math_round p"
  define q where "q = fl (of_int k / 120)"
  have "fl 5 \<le> t0" "t0 \<le> fl 6" unfolding t0' by (rule mono; simp)+
  then have t0: "5 \<le> t0" "t0 \<le> 6" by (simp_all add: f5 f6)
  have "fl 600 \<le> p" "p \<le> fl 720" unfolding p_def using t0 by (auto intro!: mono)
  then have p: "of_int 600 \<le> p" "p \<le> of_int 720" by (simp_all add: f600 f720)
  have k: "600 \<le> k" "k \<le> 720" unfolding k_def by (rule Math_round_between [OF p])+
  then have "(5::real) \<le> of_int k / 120" "of_int k / 120 \<le> (6::real)" by simp_all
  then have "fl 5 \<le> q" "q \<le> fl 6" unfolding q_def by (auto intro!: mono)
  then have q: "5 \<le> q" by (simp add: f5)
  have "time (handleGraphSeek fl 5 seek_view) = max 0 (min (1001 / 1000) q)"
    unfolding q_def k_def p_def t0_def
    by (simp add: handleGraphSeek_def seek_view_fields Let_def FPS_def)
  also have "\<dots> = 1001 / 1000" using q by simp
  finally have 1: "time (handleGraphSeek fl 5 seek_view) = 1001 / 1000" .
  \<comment> \<open>the claim's order\<close>
  have b: "\<lfloor>(1001 / 1000 * 120 + 1 / 2 :: real)\<rfloor> = 120" by (simp add: floor_eq_iff)
  have 2: "time (handleGraphSeek_spec 5 seek_view) = 1"
    using b by (simp add: handleGraphSeek_spec_def seekAbsolute_spec_def nearest_frame_def
          seek_view_fields Let_def Math_round_def FPS_def)
  \<comment> \<open>the second branch\<close>
  define p' where "p' = fl (1001 / 1000 * 120)"
  have "\<bar>p' - 1001 / 1000 * 120\<bar> \<le> 1 / 4" unfolding p'_def by (rule near) simp
  then have "120 \<le> p' + 1 / 2" "p' + 1 / 2 < 121" by linarith+
  then have "of_int 120 \<le> p' + 1 / 2" "p' + 1 / 2 < of_int 120 + 1" by simp_all
  then have "\<lfloor>p' + 1 / 2\<rfloor> = 120" by (simp only: floor_unique)
  then have k': "Math_round p' = 120" by (simp add: Math_round_def)
  have "time (handleGraphSeek fl 5 bare_view) = fl (of_int (Math_round p') / 120)"
    unfolding p'_def
    by (simp add: handleGraphSeek_def seek_view_fields Let_def FPS_def)
  also have "\<dots> = 1" unfolding k' using f1 by simp
  finally have 3: "time (handleGraphSeek fl 5 bare_view) = 1" .
  from 1 2 3 show ?thesis by simp
qed

theorem handleGraphSeek_off_grid_witness:
  "double_rounding (\<lambda>x. x)
   \<and> time (handleGraphSeek (\<lambda>x. x) 5 seek_view) = 1001 / 1000
   \<and> time (handleGraphSeek_spec 5 seek_view) = 1
   \<and> time (handleGraphSeek (\<lambda>x. x) 5 bare_view) = 1"
  using handleGraphSeek_off_grid [OF double_rounding_exact] double_rounding_exact by simp

section \<open>Properties of the channel extractor\<close>

lemma finite_number_iff: "finite_number v \<noteq> None \<longleftrightarrow> (\<exists>x. v = JNumber (Num x))"
  by (cases v rule: finite_number.cases) auto

lemma finite_number_Some: "finite_number v = Some x \<longleftrightarrow> v = JNumber (Num x)"
  by (cases v rule: finite_number.cases) auto

lemma set_set_add: "set (set_add k acc) = insert k (set acc)"
  by (auto simp: set_add_def)

lemma distinct_set_add: "distinct acc \<Longrightarrow> distinct (set_add k acc)"
  by (simp add: set_add_def)

lemma set_scan_keys:
  "set (scan_keys d ks acc) =
     set acc \<union> {k \<in> set ks. k \<noteq> ''t'' \<and> k \<noteq> ''time'' \<and> k \<noteq> ''frame''
                    \<and> finite_number (getProp (Some d) k) \<noteq> None}"
  by (induction ks arbitrary: acc) (auto simp: set_set_add split: option.splits)

lemma distinct_scan_keys: "distinct acc \<Longrightarrow> distinct (scan_keys d ks acc)"
  by (induction ks arbitrary: acc) (auto simp: distinct_set_add split: option.splits)

lemma set_scan_rows:
  "set (scan_rows data acc) =
     set acc \<union> {k. \<exists>d. Some d \<in> set data
                    \<and> (k \<in> set (Object_keys d) \<and> finite_number (getProp (Some d) k) \<noteq> None)
                    \<and> k \<noteq> ''t'' \<and> k \<noteq> ''time'' \<and> k \<noteq> ''frame''}"
proof (induction data acc rule: scan_rows.induct)
  case (3 d ds acc)
  show ?case unfolding scan_rows.simps 3 set_scan_keys by auto
qed auto

lemma distinct_scan_rows: "distinct acc \<Longrightarrow> distinct (scan_rows data acc)"
  by (induction data acc rule: scan_rows.induct) (auto simp: distinct_scan_keys)

lemma finite_field:
  "k \<in> set (Object_keys d) \<and> finite_number (getProp (Some d) k) \<noteq> None
     \<longleftrightarrow> (\<exists>x. map_of d k = Some (JNumber (Num x)))"
proof
  assume l: "k \<in> set (Object_keys d) \<and> finite_number (getProp (Some d) k) \<noteq> None"
  then obtain x where "getProp (Some d) k = JNumber (Num x)"
    using finite_number_iff by blast
  then have "map_of d k = Some (JNumber (Num x))"
    by (simp add: getProp_def split: option.splits)
  then show "\<exists>x. map_of d k = Some (JNumber (Num x))" ..
next
  assume "\<exists>x. map_of d k = Some (JNumber (Num x))"
  then obtain x where m: "map_of d k = Some (JNumber (Num x))" ..
  then have "(k, JNumber (Num x)) \<in> set d" by (rule map_of_SomeD)
  then have "k \<in> fst ` set d" by (rule rev_image_eqI) simp
  moreover have "getProp (Some d) k = JNumber (Num x)" using m by (simp add: getProp_def)
  ultimately show "k \<in> set (Object_keys d) \<and> finite_number (getProp (Some d) k) \<noteq> None"
    by (simp add: Object_keys_def)
qed

lemma channels_mixed_rows: "listNumericChannels mixed_rows = [''v'', ''w'']"
  by (simp add: listNumericChannels_def mixed_rows_def Object_keys_def set_add_def getProp_def)

text \<open>
  Claim C8. For every sequence of rows, \<^verbatim>\<open>listNumericChannels\<close> returns exactly the field
  names, other than \<open>t\<close>, \<open>time\<close> and \<open>frame\<close>, whose value is a finite number in at
  least one row; the three reserved names never occur in the result, and the result is
  sorted lexicographically and free of duplicates.
\<close>

theorem listNumericChannels_exact:
  "set (listNumericChannels data) =
     {k. (\<exists>d x. Some d \<in> set data \<and> map_of d k = Some (JNumber (Num x)))
         \<and> k \<noteq> ''t'' \<and> k \<noteq> ''time'' \<and> k \<noteq> ''frame''}
   \<and> ''t'' \<notin> set (listNumericChannels data)
   \<and> ''time'' \<notin> set (listNumericChannels data)
   \<and> ''frame'' \<notin> set (listNumericChannels data)
   \<and> sorted (listNumericChannels data)
   \<and> distinct (listNumericChannels data)"
proof -
  have "set (listNumericChannels data) =
     {k. (\<exists>d x. Some d \<in> set data \<and> map_of d k = Some (JNumber (Num x)))
         \<and> k \<noteq> ''t'' \<and> k \<noteq> ''time'' \<and> k \<noteq> ''frame''}"
    unfolding listNumericChannels_def set_sort set_scan_rows finite_field
    by auto
  moreover have "distinct (listNumericChannels data)"
    by (simp add: listNumericChannels_def distinct_scan_rows)
  moreover have "sorted (listNumericChannels data)"
    by (simp add: listNumericChannels_def)
  ultimately show ?thesis by simp
qed

theorem listNumericChannels_exact_witness:
  "listNumericChannels mixed_rows = [''v'', ''w'']
   \<and> ''t'' \<notin> set (listNumericChannels mixed_rows)
   \<and> ''frame'' \<notin> set (listNumericChannels mixed_rows)
   \<and> sorted (listNumericChannels mixed_rows)
   \<and> distinct (listNumericChannels mixed_rows)"
  using listNumericChannels_exact [of mixed_rows] channels_mixed_rows by simp

section \<open>Properties of the series builder\<close>

subsection \<open>Evaluating the builder on the concrete tables\<close>

lemma series_descending_rows: "buildSeries (\<lambda>v. NaN) (Some descending_rows) (Some ''v'') = \<lparr>pts = [\<lparr>t = Some 0, value = 1\<rparr>, \<lparr>t = Some (-1), value = 2\<rparr>], dur = 0\<rparr>"
  by (simp add: buildSeries_def descending_rows_def timeKey_def getProp_def orZero_def Let_def)

lemma series_infinite_t_rows: "buildSeries (\<lambda>v. NaN) (Some infinite_t_rows) (Some ''v'') = \<lparr>pts = [], dur = 0\<rparr>"
  by (simp add: buildSeries_def infinite_t_rows_def timeKey_def getProp_def orZero_def Let_def)

lemma series_untimed_rows: "buildSeries (\<lambda>v. NaN) (Some untimed_rows) (Some ''v'') = \<lparr>pts = [\<lparr>t = Some 0, value = 5\<rparr>, \<lparr>t = Some 1, value = 7\<rparr>], dur = 1\<rparr>"
  by (simp add: buildSeries_def untimed_rows_def timeKey_def getProp_def orZero_def Let_def)

lemma series_ascending_rows:
  "buildSeries (\<lambda>v. NaN) (Some ascending_rows) (Some ''v'') =
     \<lparr>pts = [\<lparr>t = Some 0, value = 1\<rparr>, \<lparr>t = Some (1 / 2), value = 2\<rparr>, \<lparr>t = Some 1, value = 3\<rparr>],
      dur = 1\<rparr>"
  by (simp add: buildSeries_def ascending_rows_def timeKey_def getProp_def orZero_def Let_def)

subsection \<open>The loop\<close>

lemma isFinite_Some: "isFinite n = Some x \<longleftrightarrow> n = Num x"
  by (cases n) auto

lemma collect_append:
  "collect conv key ch n i (xs @ ys) =
     collect conv key ch n i xs @ collect conv key ch n (i + length xs) ys"
  by (induction xs arbitrary: i) (auto split: option.splits)

lemma timeKey_t:
  assumes "d \<in> set data" "typeof_number (getProp d ''t'')"
  shows "timeKey data = Some ''t''"
  using assms by (auto simp: timeKey_def list_ex_iff)

lemma buildSeries_nonempty:
  assumes "rs \<noteq> []" "ch \<noteq> []" "collect conv (timeKey rs) ch (length rs) 0 rs = ps" "ps \<noteq> []"
  shows "buildSeries conv (Some rs) (Some ch) =
           \<lparr>pts = map (\<lambda>p. \<lparr>t = Some (orZero (t p) - orZero (t (hd ps))), value = value p\<rparr>) ps,
            dur = max 0 (orZero (t (last ps)) - orZero (t (hd ps)))\<rparr>"
  using assms by (simp add: buildSeries_def Let_def)

lemma buildSeries_empty:
  assumes "pts (buildSeries conv data channel) \<noteq> []"
  obtains rs ch where "data = Some rs" "channel = Some ch" "rs \<noteq> []" "ch \<noteq> []"
    "collect conv (timeKey rs) ch (length rs) 0 rs \<noteq> []"
  using assms by (auto simp: buildSeries_def Let_def split: option.splits if_splits)

lemma collect_Cons:
  "collect conv key ch n i (r # rest) =
     (if keeps conv key ch r then [point_at conv key ch n i r] else [])
       @ collect conv key ch n (Suc i) rest"
  by (auto simp: keeps_def point_at_def split: option.splits)

lemma collect_indices:
  "collect conv key ch n i ys =
     map (\<lambda>j. point_at conv key ch n (i + j) (ys ! j))
       (filter (\<lambda>j. keeps conv key ch (ys ! j)) [0..<length ys])"
proof (induction ys arbitrary: i)
  case Nil
  then show ?case by simp
next
  case (Cons y ys)
  have u: "[0..<length (y # ys)] = 0 # map Suc [0..<length ys]"
    by (simp add: upt_conv_Cons map_Suc_upt del: upt_Suc)
  show ?case
    unfolding collect_Cons u Cons.IH
    by (simp add: filter_map comp_def)
qed

lemma collect_kept_rows:
  "collect conv key ch (length data) 0 data =
     map (\<lambda>i. \<lparr>t = Some (row_time conv key data i),
               value = the (finite_number (getProp (data ! i) ch))\<rparr>)
       (kept_rows conv key ch data)"
  unfolding collect_indices [of conv key ch "length data" 0 data]
  by (simp add: kept_rows_def row_time_def keeps_def point_at_def)

lemma timeKey_cases:
  "timeKey data =
     (if \<exists>d \<in> set data. typeof_number (getProp d ''t'') then Some ''t''
      else if \<exists>d \<in> set data. typeof_number (getProp d ''time'') then Some ''time''
      else None)"
  by (simp add: timeKey_def list_ex_iff)

subsection \<open>First point and duration\<close>

text \<open>
  Claim C10, as stated, fails: for rows whose timestamps descend, the last normalized time
  is negative while the duration is clamped to 0.
\<close>

theorem buildSeries_starts_at_zero_counterexample:
  "pts (buildSeries (\<lambda>v. NaN) (Some descending_rows) (Some ''v'')) \<noteq> []
   \<and> dur (buildSeries (\<lambda>v. NaN) (Some descending_rows) (Some ''v'')) = 0
   \<and> t (last (pts (buildSeries (\<lambda>v. NaN) (Some descending_rows) (Some ''v'')))) = Some (- 1)"
  by (simp add: series_descending_rows)

text \<open>
  Claim C10, amended. For every sequence of rows and every channel, whenever
  \<^verbatim>\<open>buildSeries\<close> returns a non-empty point list, the first point's time is exactly 0, and
  the duration is the last point's normalized time if that is not negative and 0 if it
  is; so the duration is at least 0.
\<close>

theorem buildSeries_starts_at_zero:
  assumes "pts (buildSeries conv data channel) \<noteq> []"
  shows "t (hd (pts (buildSeries conv data channel))) = Some 0
         \<and> dur (buildSeries conv data channel)
             = max 0 (orZero (t (last (pts (buildSeries conv data channel)))))
         \<and> 0 \<le> dur (buildSeries conv data channel)"
proof -
  from assms obtain rs ch where d: "data = Some rs" "channel = Some ch" "rs \<noteq> []" "ch \<noteq> []"
    and ne: "collect conv (timeKey rs) ch (length rs) 0 rs \<noteq> []"
    by (rule buildSeries_empty)
  show ?thesis
    unfolding d buildSeries_nonempty [OF d(3,4) refl ne]
    using ne by (simp add: hd_map last_map orZero_def)
qed

theorem buildSeries_starts_at_zero_witness:
  "pts (buildSeries (\<lambda>v. NaN) (Some untimed_rows) (Some ''v'')) \<noteq> []
   \<and> t (hd (pts (buildSeries (\<lambda>v. NaN) (Some untimed_rows) (Some ''v'')))) = Some 0
   \<and> dur (buildSeries (\<lambda>v. NaN) (Some untimed_rows) (Some ''v'')) = 1"
proof -
  have ne: "pts (buildSeries (\<lambda>v. NaN) (Some untimed_rows) (Some ''v'')) \<noteq> []"
    by (simp add: series_untimed_rows)
  have l: "orZero (t (last (pts (buildSeries (\<lambda>v. NaN) (Some untimed_rows) (Some ''v''))))) = 1"
    by (simp add: series_untimed_rows orZero_def)
  from buildSeries_starts_at_zero [OF ne] ne l show ?thesis by simp
qed

subsection \<open>Duration under an explicit time column\<close>

text \<open>
  Claim C3, as stated, fails: in a table whose rows all carry a finite \<open>t\<close> and a finite
  channel value, with \<open>t\<close> running from 1 down to 0, the duration is 0 and not
  \<open>0 - 1\<close>.
\<close>

theorem buildSeries_duration_counterexample:
  "descending_rows \<noteq> []
   \<and> list_all (\<lambda>d. finite_number (getProp d ''v'') \<noteq> None) descending_rows
   \<and> list_all (\<lambda>d. finite_number (getProp d ''t'') \<noteq> None) descending_rows
   \<and> timeKey descending_rows = Some ''t''
   \<and> getProp (hd descending_rows) ''t'' = JNumber (Num 1)
   \<and> getProp (last descending_rows) ''t'' = JNumber (Num 0)
   \<and> dur (buildSeries (\<lambda>v. NaN) (Some descending_rows) (Some ''v'')) = 0
   \<and> dur (buildSeries (\<lambda>v. NaN) (Some descending_rows) (Some ''v'')) \<noteq> 0 - 1"
  by (simp add: series_descending_rows)
     (simp add: descending_rows_def getProp_def timeKey_def)

text \<open>
  Claim C3, amended. For every non-empty sequence of rows and every channel with a
  non-empty name, if the channel's value is a finite number in the first and in the last
  row (all the more if it is in every row) and both rows carry a finite number under \<open>t\<close>,
  the duration is \<open>max 0 (last.t - first.t)\<close>: the difference when the last timestamp is
  not before the first, and 0 otherwise.
\<close>

theorem buildSeries_duration:
  assumes "data \<noteq> []" "channel \<noteq> []"
    and "finite_number (getProp (hd data) channel) \<noteq> None"
    and "finite_number (getProp (last data) channel) \<noteq> None"
    and "getProp (hd data) ''t'' = JNumber (Num a)"
    and "getProp (last data) ''t'' = JNumber (Num b)"
  shows "dur (buildSeries conv (Some data) (Some channel)) = max 0 (b - a)"
proof -
  have key: "timeKey data = Some ''t''"
    by (rule timeKey_t [of "hd data"]) (use assms in simp_all)
  let ?c = "collect conv (Some ''t'') channel (length data)"
  obtain v where v: "finite_number (getProp (hd data) channel) = Some v" using assms(3) by auto
  obtain w where w: "finite_number (getProp (last data) channel) = Some w" using assms(4) by auto
  have 1: "?c 0 data = \<lparr>t = Some a, value = v\<rparr> # ?c 1 (tl data)"
  proof -
    have "data = hd data # tl data" using assms(1) by simp
    then have "?c 0 data = ?c 0 (hd data # tl data)" by simp
    also have "\<dots> = \<lparr>t = Some a, value = v\<rparr> # ?c 1 (tl data)"
      using v assms(5) by simp
    finally show ?thesis .
  qed
  have 2: "?c 0 data = ?c 0 (butlast data) @ [\<lparr>t = Some b, value = w\<rparr>]"
  proof -
    have "data = butlast data @ [last data]" using assms(1) by simp
    then have "?c 0 data = ?c 0 (butlast data @ [last data])" by simp
    also have "\<dots> = ?c 0 (butlast data) @ [\<lparr>t = Some b, value = w\<rparr>]"
      unfolding collect_append using w assms(6) by simp
    finally show ?thesis .
  qed
  have ne: "?c 0 data \<noteq> []" using 1 by simp
  have h: "hd (?c 0 data) = \<lparr>t = Some a, value = v\<rparr>" using 1 by simp
  have l: "last (?c 0 data) = \<lparr>t = Some b, value = w\<rparr>" using 2 by simp
  show ?thesis
    using buildSeries_nonempty [OF assms(1,2) refl, unfolded key, OF ne]
    by (simp add: h l orZero_def)
qed

theorem buildSeries_duration_witness:
  "ascending_rows \<noteq> [] \<and> ''v'' \<noteq> []
   \<and> finite_number (getProp (hd ascending_rows) ''v'') \<noteq> None
   \<and> finite_number (getProp (last ascending_rows) ''v'') \<noteq> None
   \<and> getProp (hd ascending_rows) ''t'' = JNumber (Num 0)
   \<and> getProp (last ascending_rows) ''t'' = JNumber (Num 1)
   \<and> dur (buildSeries (\<lambda>v. NaN) (Some ascending_rows) (Some ''v'')) = 1"
proof -
  have h: "ascending_rows \<noteq> []" "''v'' \<noteq> []"
    "finite_number (getProp (hd ascending_rows) ''v'') \<noteq> None"
    "finite_number (getProp (last ascending_rows) ''v'') \<noteq> None"
    "getProp (hd ascending_rows) ''t'' = JNumber (Num 0)"
    "getProp (last ascending_rows) ''t'' = JNumber (Num 1)"
    by (simp_all add: ascending_rows_def getProp_def)
  from buildSeries_duration [OF h, of "\<lambda>v. NaN"] h show ?thesis by simp
qed

subsection \<open>The time key\<close>

text \<open>
  Claim C9, as stated, fails: the code asks whether some row has a value of type number
  under \<open>t\<close>, not whether it is finite. In a table whose \<open>t\<close> column holds only
  Infinity and whose \<open>time\<close> column is usable, the code chooses \<open>t\<close>, then drops
  every row, where the specification's rule chooses \<open>time\<close>.
\<close>

theorem buildSeries_time_key_counterexample:
  "timeKey infinite_t_rows = Some ''t''
   \<and> timeKey_spec infinite_t_rows = Some ''time''
   \<and> pts (buildSeries (\<lambda>v. NaN) (Some infinite_t_rows) (Some ''v'')) = []"
  by (simp add: series_infinite_t_rows)
     (simp add: infinite_t_rows_def timeKey_def timeKey_spec_def getProp_def)

text \<open>
  Claim C9, amended. \<^verbatim>\<open>buildSeries\<close> uses \<open>t\<close> as the time key if any row has a value of
  type number under \<open>t\<close> (finite or not), else \<open>time\<close> if any row has a value of type
  number under \<open>time\<close>, else no key. Its points are, in row order, those of the kept rows
  (finite channel value and, under a key, a finite converted time), each at its row time
  minus the row time of the first kept row; without a key the row time of row \<open>i\<close> of
  \<open>n\<close> is \<open>i / (n - 1)\<close>, and 0 if \<open>n = 1\<close>, with \<open>i\<close> and \<open>n\<close> counted over all
  rows.
\<close>

theorem buildSeries_time_key:
  "timeKey data =
     (if \<exists>d \<in> set data. typeof_number (getProp d ''t'') then Some ''t''
      else if \<exists>d \<in> set data. typeof_number (getProp d ''time'') then Some ''time''
      else None)
   \<and> (data \<noteq> [] \<longrightarrow> channel \<noteq> [] \<longrightarrow>
        pts (buildSeries conv (Some data) (Some channel)) =
          map (\<lambda>i. \<lparr>t = Some (row_time conv (timeKey data) data i
                               - row_time conv (timeKey data) data
                                   (hd (kept_rows conv (timeKey data) channel data))),
                    value = the (finite_number (getProp (data ! i) channel))\<rparr>)
            (kept_rows conv (timeKey data) channel data))"
proof (intro conjI impI)
  show "timeKey data =
     (if \<exists>d \<in> set data. typeof_number (getProp d ''t'') then Some ''t''
      else if \<exists>d \<in> set data. typeof_number (getProp d ''time'') then Some ''time''
      else None)"
    by (rule timeKey_cases)
next
  assume ne: "data \<noteq> []" "channel \<noteq> []"
  let ?ks = "kept_rows conv (timeKey data) channel data"
  let ?ps = "collect conv (timeKey data) channel (length data) 0 data"
  show "pts (buildSeries conv (Some data) (Some channel)) =
          map (\<lambda>i. \<lparr>t = Some (row_time conv (timeKey data) data i
                               - row_time conv (timeKey data) data (hd ?ks)),
                    value = the (finite_number (getProp (data ! i) channel))\<rparr>) ?ks"
  proof (cases "?ks = []")
    case True
    then have "?ps = []" by (simp add: collect_kept_rows)
    then show ?thesis using True ne by (simp add: buildSeries_def Let_def)
  next
    case False
    then have p: "?ps \<noteq> []" by (simp add: collect_kept_rows)
    have h: "orZero (t (hd ?ps)) = row_time conv (timeKey data) data (hd ?ks)"
      using False by (simp add: collect_kept_rows hd_map orZero_def)
    show ?thesis
      unfolding buildSeries_nonempty [OF ne refl p] h
      by (simp add: collect_kept_rows orZero_def comp_def)
  qed
qed

theorem buildSeries_time_key_witness:
  "timeKey untimed_rows = None
   \<and> kept_rows (\<lambda>v. NaN) None ''v'' untimed_rows = [0, 2]
   \<and> pts (buildSeries (\<lambda>v. NaN) (Some untimed_rows) (Some ''v'')) =
       [\<lparr>t = Some 0, value = 5\<rparr>, \<lparr>t = Some 1, value = 7\<rparr>]"
proof -
  from buildSeries_time_key [of untimed_rows "''v''" "\<lambda>v. NaN"]
  have k: "timeKey untimed_rows = None"
    by (simp add: untimed_rows_def getProp_def)
  have u: "[0..<3] = [0, 1, 2]" by (simp add: upt_rec)
  have r: "kept_rows (\<lambda>v. NaN) None ''v'' untimed_rows = [0, 2]"
    by (simp add: kept_rows_def untimed_rows_def getProp_def u)
  from k r show ?thesis by (simp add: series_untimed_rows)
qed


section \<open>Properties of the load orchestration\<close>

subsection \<open>What the effects leave alone\<close>

lemma gated_effects_ui:
  "rowsBySheet (ui (load_effect (manifest_effect s))) = rowsBySheet (ui s)"
  "sheetNames (ui (load_effect (manifest_effect s))) = sheetNames (ui s)"
  "sheet (ui (load_effect (manifest_effect s))) = sheet (ui s)"
  "rows (ui (load_effect (manifest_effect s))) = rows (ui s)"
  "channels (ui (load_effect (manifest_effect s))) = channels (ui s)"
  "selectedChannel (ui (load_effect (manifest_effect s))) = selectedChannel (ui s)"
  "selectedChannelB (ui (load_effect (manifest_effect s))) = selectedChannelB (ui s)"
  "series (ui (load_effect (manifest_effect s))) = series (ui s)"
  "seriesB (ui (load_effect (manifest_effect s))) = seriesB (ui s)"
  "jsonDuration (ui (load_effect (manifest_effect s))) = jsonDuration (ui s)"
  "manifest (ui (load_effect (manifest_effect s))) = manifest (ui s)"
  "sessions (ui (load_effect (manifest_effect s))) = sessions (ui s)"
  "session (ui (load_effect (manifest_effect s))) = session (ui s)"
  "playerName (ui (load_effect (manifest_effect s))) = playerName (ui s)"
  by (simp_all add: load_effect_def manifest_effect_def clock_effects_def cancelLoop_def Let_def
        split: option.splits)

lemma derived_no_data:
  assumes "rowsBySheet snap = None" "rows snap = None"
  shows "derived_effects conv snap cur = Some (cur\<lparr>series := None, jsonDuration := 0, seriesB := None\<rparr>)"
  using assms by (simp add: derived_effects_def recompute_effect_def seriesA_effect_def seriesB_effect_def)

lemma render_no_data:
  assumes "rowsBySheet (ui s) = None" "rows (ui s) = None"
  shows "\<exists>s'. render conv s = Some s'
           \<and> rowsBySheet (ui s') = None \<and> rows (ui s') = None
           \<and> sheetNames (ui s') = sheetNames (ui s) \<and> sheet (ui s') = sheet (ui s)
           \<and> series (ui s') = None \<and> seriesB (ui s') = None \<and> jsonDuration (ui s') = 0
           \<and> channels (ui s') = channels (ui s)
           \<and> selectedChannel (ui s') = selectedChannel (ui s)
           \<and> selectedChannelB (ui s') = selectedChannelB (ui s)"
  using assms by (simp add: render_def Let_def derived_no_data gated_effects_ui)

lemma commit_no_data:
  assumes "rowsBySheet (ui s) = None" "rows (ui s) = None"
  shows "\<exists>s'. commit conv s = Some s'
           \<and> rowsBySheet (ui s') = None \<and> rows (ui s') = None
           \<and> sheetNames (ui s') = sheetNames (ui s) \<and> sheet (ui s') = sheet (ui s)
           \<and> series (ui s') = None \<and> seriesB (ui s') = None \<and> jsonDuration (ui s') = 0
           \<and> channels (ui s') = channels (ui s)
           \<and> selectedChannel (ui s') = selectedChannel (ui s)
           \<and> selectedChannelB (ui s') = selectedChannelB (ui s)"
proof -
  from render_no_data [OF assms, of conv] obtain s1 where 1: "render conv s = Some s1"
    "rowsBySheet (ui s1) = None" "rows (ui s1) = None"
    "sheetNames (ui s1) = sheetNames (ui s)" "sheet (ui s1) = sheet (ui s)"
    "channels (ui s1) = channels (ui s)" "selectedChannel (ui s1) = selectedChannel (ui s)"
    "selectedChannelB (ui s1) = selectedChannelB (ui s)" by blast
  from render_no_data [OF 1(2,3), of conv] obtain s2 where 2: "render conv s1 = Some s2"
    "rowsBySheet (ui s2) = None" "rows (ui s2) = None"
    "sheetNames (ui s2) = sheetNames (ui s1)" "sheet (ui s2) = sheet (ui s1)"
    "channels (ui s2) = channels (ui s1)" "selectedChannel (ui s2) = selectedChannel (ui s1)"
    "selectedChannelB (ui s2) = selectedChannelB (ui s1)" by blast
  from render_no_data [OF 2(2,3), of conv] obtain s3 where 3: "render conv s2 = Some s3"
    "rowsBySheet (ui s3) = None" "rows (ui s3) = None"
    "sheetNames (ui s3) = sheetNames (ui s2)" "sheet (ui s3) = sheet (ui s2)"
    "series (ui s3) = None" "seriesB (ui s3) = None" "jsonDuration (ui s3) = 0"
    "channels (ui s3) = channels (ui s2)" "selectedChannel (ui s3) = selectedChannel (ui s2)"
    "selectedChannelB (ui s3) = selectedChannelB (ui s2)" by blast
  have "commit conv s = Some s3" by (simp add: commit_def 1 2 3)
  then show ?thesis using 1 2 3 by simp
qed

lemma excel_failed_outcome:
  assumes "r = None \<or> r = Some []"
  shows "excel_then r v = excel_failed v"
  using assms by (auto simp: excel_then_def preferredSheet_def orElse_def Object_keys_def)

subsection \<open>Three renders are enough\<close>

text \<open>
  After a change of state the component is rendered until its effects change nothing any
  more. The loading effects run at most in the first render; the deriving effects reach
  their fixed point with the second. So the state that \<open>commit\<close> returns is stable: one
  more render leaves it as it is.
\<close>

lemma gated_settles: "settled_deps (load_effect (manifest_effect s))"
  by (simp add: settled_deps_def load_effect_def manifest_effect_def clock_effects_def
        cancelLoop_def Let_def split: option.splits)

lemma gated_idem: "settled_deps s \<Longrightarrow> load_effect (manifest_effect s) = s"
  by (simp add: settled_deps_def load_effect_def manifest_effect_def)

lemma nextChannelA_idem: "nextChannelA chs (nextChannelA chs p) = nextChannelA chs p"
  by (simp add: nextChannelA_def)

lemma nextChannelB_idem: "nextChannelB chs (nextChannelB chs p) = nextChannelB chs p"
  by (simp add: nextChannelB_def Let_def)

lemma recompute_fixed:
  assumes "recompute_effect snap cur = Some c"
    and "rowsBySheet cur = rowsBySheet snap" "sheet cur = sheet snap"
  shows "recompute_effect c c = Some c"
proof (cases "rowsBySheet snap")
  case None
  then show ?thesis using assms by (simp add: recompute_effect_def)
next
  case (Some sets)
  show ?thesis
  proof (cases "truthy (sheet snap)")
    case False
    then show ?thesis using assms Some by (simp add: recompute_effect_def)
  next
    case True
    with assms(1) Some obtain newRows where m: "map_of sets (the (sheet snap)) = Some newRows"
      by (auto simp: recompute_effect_def split: option.splits)
    let ?chs = "listNumericChannels newRows"
    have c: "c = cur\<lparr>rows := Some newRows, channels := ?chs,
                      selectedChannel := nextChannelA ?chs (selectedChannel cur),
                      selectedChannelB := nextChannelB ?chs (selectedChannelB cur)\<rparr>"
      using assms(1) Some True m by (simp add: recompute_effect_def Let_def)
    have f: "rowsBySheet c = Some sets" "sheet c = sheet snap"
      unfolding c using assms(2,3) Some by simp_all
    show ?thesis
      unfolding recompute_effect_def f using True m
      by (simp add: Let_def) (simp add: c nextChannelA_idem nextChannelB_idem)
  qed
qed

lemma recompute_series_fields:
  assumes "recompute_effect v v = Some v"
  shows "recompute_effect (v\<lparr>series := a, jsonDuration := b, seriesB := c\<rparr>)
           (v\<lparr>series := a, jsonDuration := b, seriesB := c\<rparr>)
         = Some (v\<lparr>series := a, jsonDuration := b, seriesB := c\<rparr>)"
proof -
  let ?w = "v\<lparr>series := a, jsonDuration := b, seriesB := c\<rparr>"
  have "recompute_effect ?w ?w = map_option (\<lambda>x. x\<lparr>series := a, jsonDuration := b, seriesB := c\<rparr>)
          (recompute_effect v v)"
    by (simp add: recompute_effect_def Let_def split: option.splits)
  then show ?thesis using assms by simp
qed


lemma series_effects_shape:
  "seriesB_effect conv snap (seriesA_effect conv snap c) =
     c\<lparr>series := series (seriesA_effect conv snap c),
       jsonDuration := jsonDuration (seriesA_effect conv snap c),
       seriesB := seriesB (seriesB_effect conv snap c)\<rparr>"
  by (simp add: seriesA_effect_def seriesB_effect_def Let_def)

lemma series_effects_snap:
  assumes "rows snap' = rows snap" "selectedChannel snap' = selectedChannel snap"
    "selectedChannelB snap' = selectedChannelB snap"
  shows "series (seriesA_effect conv snap' c') = series (seriesA_effect conv snap c)"
    "jsonDuration (seriesA_effect conv snap' c') = jsonDuration (seriesA_effect conv snap c)"
    "seriesB (seriesB_effect conv snap' c') = seriesB (seriesB_effect conv snap c)"
  using assms by (simp_all add: seriesA_effect_def seriesB_effect_def Let_def)

lemma recompute_keeps:
  assumes "recompute_effect snap cur = Some c"
  shows "playerName c = playerName cur" "session c = session cur"
  using assms by (auto simp: recompute_effect_def Let_def split: option.splits if_splits)

lemma derived_fixed:
  assumes "recompute_effect v v = Some v"
  shows "\<exists>w. derived_effects conv v v = Some w \<and> derived_effects conv w w = Some w
           \<and> recompute_effect w w = Some w
           \<and> playerName w = playerName v \<and> session w = session v"
proof -
  let ?a = "series (seriesA_effect conv v v)"
  let ?b = "jsonDuration (seriesA_effect conv v v)"
  let ?c = "seriesB (seriesB_effect conv v v)"
  let ?w = "v\<lparr>series := ?a, jsonDuration := ?b, seriesB := ?c\<rparr>"
  have 1: "derived_effects conv v v = Some ?w"
    unfolding derived_effects_def assms by (simp add: series_effects_shape)
  have 2: "recompute_effect ?w ?w = Some ?w" using assms by (rule recompute_series_fields)
  have 3: "series (seriesA_effect conv ?w ?w) = ?a"
    "jsonDuration (seriesA_effect conv ?w ?w) = ?b"
    "seriesB (seriesB_effect conv ?w ?w) = ?c"
    by (rule series_effects_snap; simp)+
  have "derived_effects conv ?w ?w = Some ?w"
    unfolding derived_effects_def 2 by (simp add: series_effects_shape 3)
  with 1 2 show ?thesis by simp
qed

lemma render_shape:
  assumes "render conv s = Some s'"
  shows "settled_deps s'" "recompute_effect (ui s') (ui s') = Some (ui s')"
proof -
  let ?g = "load_effect (manifest_effect s)"
  from assms obtain c where c: "recompute_effect (ui s) (ui ?g) = Some c"
    and s': "s' = ?g\<lparr>ui := seriesB_effect conv (ui s) (seriesA_effect conv (ui s) c)\<rparr>"
    by (auto simp: render_def Let_def derived_effects_def split: option.splits)
  have cc: "recompute_effect c c = Some c"
    using c by (rule recompute_fixed) (simp_all add: gated_effects_ui)
  have u: "ui s' = c\<lparr>series := series (seriesA_effect conv (ui s) c),
       jsonDuration := jsonDuration (seriesA_effect conv (ui s) c),
       seriesB := seriesB (seriesB_effect conv (ui s) c)\<rparr>"
    unfolding s' by (simp add: series_effects_shape)
  show "recompute_effect (ui s') (ui s') = Some (ui s')"
    unfolding u using cc by (rule recompute_series_fields)
  have "playerName (ui s') = playerName (ui ?g)" "session (ui s') = session (ui ?g)"
    unfolding u using recompute_keeps [OF c] by simp_all
  moreover have "manifestDeps s' = manifestDeps ?g" "loadDeps s' = loadDeps ?g"
    "manifestFrom s' = manifestFrom ?g" unfolding s' by simp_all
  ultimately show "settled_deps s'" using gated_settles [of s] by (simp add: settled_deps_def)
qed

lemma render_settled_fixed:
  assumes "settled_deps s" "recompute_effect (ui s) (ui s) = Some (ui s)"
  shows "\<exists>s'. render conv s = Some s' \<and> render conv s' = Some s'"
proof -
  from derived_fixed [OF assms(2), of conv] obtain w where
    w: "derived_effects conv (ui s) (ui s) = Some w" "derived_effects conv w w = Some w"
      "playerName w = playerName (ui s)" "session w = session (ui s)" by blast
  have 1: "render conv s = Some (s\<lparr>ui := w\<rparr>)"
    by (simp add: render_def gated_idem [OF assms(1)] w(1))
  have "settled_deps (s\<lparr>ui := w\<rparr>)" using assms(1) w(3,4) by (simp add: settled_deps_def)
  then have "render conv (s\<lparr>ui := w\<rparr>) = Some (s\<lparr>ui := w\<rparr>)"
    by (simp add: render_def gated_idem w(2))
  with 1 show ?thesis by simp
qed

lemma commit_stable:
  assumes "commit conv s = Some s'"
  shows "render conv s' = Some s'"
proof -
  from assms obtain r1 r2 where r: "render conv s = Some r1" "render conv r1 = Some r2"
    "render conv r2 = Some s'"
    by (auto simp: commit_def bind_eq_Some_conv)
  from render_settled_fixed [OF render_shape [OF r(1)], of conv] r(2)
  have "render conv r2 = Some r2" by auto
  with r(3) show ?thesis by simp
qed

subsection \<open>Failed loads\<close>

text \<open>
  Whatever the state, a failed table load (or a table without a sheet) resets the
  collection, the sheet names, the active sheet and the rows, and the effects then clear
  both series and the data duration; the channel list and both channel selections are
  left as they were.
\<close>

lemma table_failure_keeps_channels:
  assumes "i < length (excelLoads s)" "\<not> e_settled (excelLoads s ! i)"
    and "r = None \<or> r = Some []"
  shows "\<exists>s'. step conv (ExcelArrives i r) s = Some s'
           \<and> rowsBySheet (ui s') = None \<and> sheetNames (ui s') = [] \<and> sheet (ui s') = None
           \<and> rows (ui s') = None \<and> series (ui s') = None \<and> seriesB (ui s') = None
           \<and> jsonDuration (ui s') = 0
           \<and> channels (ui s') = channels (ui s)
           \<and> selectedChannel (ui s') = selectedChannel (ui s)
           \<and> selectedChannelB (ui s') = selectedChannelB (ui s)"
proof -
  let ?s0 = "s\<lparr>excelLoads := (excelLoads s)[i := (excelLoads s ! i)\<lparr>e_settled := True\<rparr>],
               ui := excel_then r (ui s)\<rparr>"
  have u: "ui ?s0 = excel_failed (ui s)" using assms(3) by (simp add: excel_failed_outcome)
  have st: "step conv (ExcelArrives i r) s = commit conv ?s0" using assms(1,2) by simp
  have n: "rowsBySheet (ui ?s0) = None" "rows (ui ?s0) = None"
    unfolding u by (simp_all add: excel_failed_def)
  from commit_no_data [OF n, of conv] show ?thesis
    unfolding st u by (auto simp: excel_failed_def)
qed

text \<open>
  Claim C4 is the reset that the \<^verbatim>\<open>catch\<close> block of the table load begins, and the code
  falls short of it twice. Player A is loaded completely; the user switches to a player B
  whose manifest is answered with status 404. The \<^verbatim>\<open>catch\<close> block of \<^verbatim>\<open>loadManifest\<close>
  resets the manifest, the sessions and the session and nothing else: the dataset
  collection still holds A's sheets, and the channel list and both channel selections
  still hold A's channel. When the table load started for B has failed as well, its
  \<^verbatim>\<open>catch\<close> block resets the collection, the sheet and the rows, but the effect that
  recomputes the channels returns at once on a null collection: the channel list and
  both selections are still A's.
\<close>

theorem failed_loads_leave_stale_state:
  "map_option (\<lambda>s. (playerName (ui s), manifest (ui s), rowsBySheet (ui s), channels (ui s),
                    selectedChannel (ui s), selectedChannelB (ui s)))
     (Option.bind opened (run (\<lambda>v. NaN) (loaded_then_switched @ [ManifestArrives 1 None])))
     = Some (''B'', None, Some setsA, [''v''], Some ''v'', Some ''v'')
   \<and> map_option (\<lambda>s. (playerName (ui s), rowsBySheet (ui s), rows (ui s), channels (ui s),
                      selectedChannel (ui s), selectedChannelB (ui s)))
       (Option.bind opened (run (\<lambda>v. NaN) loaded_then_missing))
       = Some (''B'', None, None, [''v''], Some ''v'', Some ''v'')"
  by code_simp

subsection \<open>Superseded loads\<close>

text \<open>
  The one path that does look at the flag: a superseded manifest that arrives late and
  intact is discarded.
\<close>

lemma superseded_manifest_discarded:
  "map_option (\<lambda>s. (playerName (ui s), manifest (ui s), sessions (ui s), session (ui s)))
     (Option.bind opened (run (\<lambda>v. NaN) late_manifest_success))
     = Some (''B'', Some manifestB, [''s1''], Some ''s1'')"
  by code_simp

text \<open>
  Claim C5 is what the \<^verbatim>\<open>cancelled\<close> flag of \<^verbatim>\<open>loadManifest\<close> is there for, and the code
  breaks it in two places. The table load captures no flag: in \<open>overlapping_loads\<close> the
  table of player A arrives after the table of player B, and the dataset collection ends
  up holding A's sheets under player B. The \<^verbatim>\<open>catch\<close> block of \<^verbatim>\<open>loadManifest\<close> does not
  look at the flag: in \<open>late_manifest_failure\<close> the failure of A's superseded fetch
  wipes the manifest, the session list and the session that B's load had set.
\<close>

theorem stale_completions_applied:
  "map_option (\<lambda>s. (playerName (ui s), manifest (ui s), rowsBySheet (ui s), sheet (ui s)))
     (Option.bind opened (run (\<lambda>v. NaN) overlapping_loads))
     = Some (''B'', Some manifestB, Some setsA, Some ''Joint Positions'')
   \<and> map_option (\<lambda>s. (playerName (ui s), manifest (ui s), sessions (ui s), session (ui s)))
       (Option.bind opened (run (\<lambda>v. NaN) late_manifest_failure))
       = Some (''B'', None, [], None)"
  by code_simp


end
